theory Spec2Isabelle
  imports
    Complex_Main
    "HOL-Library.Multiset"
    "HOL-Library.Product_Lexorder"
    "HOL-Library.List_Lexorder"
    "HOL-Library.Char_ord"
begin

section \<open>Values shared by the cleaners of \<^verbatim>\<open>ab_housing/cleaning.py\<close>\<close>

text \<open>
  A pandas cell of a float column is a number or NaN. Numbers are modelled as exact
  rationals (rounding of binary floating point is not modelled), NaN as \<open>None\<close>.
  A timestamp is a calendar date \<open>(year, month, day)\<close>; the order on dates is the
  lexicographic order of the triple, NaT is \<open>None\<close>.
  A Python string is a list of characters, a character a code point below 256.
\<close>

type_synonym num = "rat option"
type_synonym date = "nat \<times> nat \<times> nat"

datatype error = ValueError | KeyError

definition is_leap :: "nat \<Rightarrow> bool" where
  "is_leap y = (y mod 4 = 0 \<and> (y mod 100 \<noteq> 0 \<or> y mod 400 = 0))"

definition days_in_month :: "nat \<Rightarrow> nat \<Rightarrow> nat" where
  "days_in_month y m =
     (if m = 2 then (if is_leap y then 29 else 28)
      else if m = 4 \<or> m = 6 \<or> m = 9 \<or> m = 11 then 30 else 31)"

definition valid_date :: "date \<Rightarrow> bool" where
  "valid_date dt = (case dt of (y, m, d) \<Rightarrow> 1 \<le> m \<and> m \<le> 12 \<and> 1 \<le> d \<and> d \<le> days_in_month y m)"

text \<open>\<^verbatim>\<open>ts + pd.offsets.MonthEnd(0)\<close>: roll a date forward to the end of its month.\<close>

definition month_end :: "date \<Rightarrow> date" where
  "month_end dt = (case dt of (y, m, d) \<Rightarrow> (y, m, days_in_month y m))"

text \<open>Months and quarters counted from year 0, the bins of \<^verbatim>\<open>resample\<close>.\<close>

definition month_index :: "date \<Rightarrow> nat" where
  "month_index dt = (case dt of (y, m, d) \<Rightarrow> 12 * y + (m - 1))"

definition month_end_of_index :: "nat \<Rightarrow> date" where
  "month_end_of_index k = (k div 12, k mod 12 + 1, days_in_month (k div 12) (k mod 12 + 1))"

definition quarter_index :: "date \<Rightarrow> nat" where
  "quarter_index dt = month_index dt div 3"

definition quarter_end_of_index :: "nat \<Rightarrow> date" where
  "quarter_end_of_index q = month_end_of_index (3 * q + 2)"

text \<open>NaN propagates through float arithmetic.\<close>

definition nan_add :: "num \<Rightarrow> num \<Rightarrow> num" where
  "nan_add a b = (case a of None \<Rightarrow> None | Some x \<Rightarrow> (case b of None \<Rightarrow> None | Some y \<Rightarrow> Some (x + y)))"

definition nan_sub :: "num \<Rightarrow> num \<Rightarrow> num" where
  "nan_sub a b = (case a of None \<Rightarrow> None | Some x \<Rightarrow> (case b of None \<Rightarrow> None | Some y \<Rightarrow> Some (x - y)))"

subsection \<open>Python string methods\<close>

text \<open>\<^verbatim>\<open>str.isdigit\<close> on code points below 256: the ASCII digits and the superscripts
  U+00B2, U+00B3, U+00B9; the empty string is not a digit string.\<close>

definition isdigit_char :: "char \<Rightarrow> bool" where
  "isdigit_char c = (let n = (of_char c :: nat) in (48 \<le> n \<and> n \<le> 57) \<or> n = 178 \<or> n = 179 \<or> n = 185)"

definition isdigit :: "string \<Rightarrow> bool" where
  "isdigit s = (s \<noteq> [] \<and> list_all isdigit_char s)"

text \<open>\<^verbatim>\<open>str.isspace\<close> on code points below 256.\<close>

definition isspace_char :: "char \<Rightarrow> bool" where
  "isspace_char c = (let n = (of_char c :: nat) in (9 \<le> n \<and> n \<le> 13) \<or> (28 \<le> n \<and> n \<le> 32) \<or> n = 133 \<or> n = 160)"

definition strip :: "string \<Rightarrow> string" where
  "strip s = rev (dropWhile isspace_char (rev (dropWhile isspace_char s)))"

text \<open>\<^verbatim>\<open>str.lower\<close> on code points below 256: A-Z and the Latin-1 capitals
  U+00C0..U+00DE except the multiplication sign U+00D7.\<close>

definition lower_char :: "char \<Rightarrow> char" where
  "lower_char c = (let n = (of_char c :: nat) in
     if (65 \<le> n \<and> n \<le> 90) \<or> (192 \<le> n \<and> n \<le> 222 \<and> n \<noteq> 215) then char_of (n + 32) else c)"

definition lower :: "string \<Rightarrow> string" where
  "lower s = map lower_char s"

text \<open>\<^verbatim>\<open>s.replace(old, new)\<close> for a one-character \<open>old\<close>, and
  \<^verbatim>\<open>s.replace(old, "", 1)\<close>, which is \<^const>\<open>remove1\<close>.\<close>

definition replace_char :: "char \<Rightarrow> string \<Rightarrow> string \<Rightarrow> string" where
  "replace_char old new s = concat (map (\<lambda>c. if c = old then new else [c]) s)"

text \<open>\<^verbatim>\<open>needle in s\<close>.\<close>

fun starts_with :: "string \<Rightarrow> string \<Rightarrow> bool" where
  "starts_with [] s = True"
| "starts_with (p # ps) [] = False"
| "starts_with (p # ps) (c # cs) = (p = c \<and> starts_with ps cs)"

fun contains :: "string \<Rightarrow> string \<Rightarrow> bool" where
  "contains needle [] = (needle = [])"
| "contains needle (c # cs) = (starts_with needle (c # cs) \<or> contains needle cs)"

text \<open>\<^verbatim>\<open>s.split()\<close>: the maximal runs of non-whitespace characters.\<close>

fun split_ws :: "string \<Rightarrow> string \<Rightarrow> string list" where
  "split_ws cur [] = (if cur = [] then [] else [cur])"
| "split_ws cur (c # cs) =
     (if isspace_char c then (if cur = [] then split_ws [] cs else cur # split_ws [] cs)
      else split_ws (cur @ [c]) cs)"

definition split :: "string \<Rightarrow> string list" where
  "split s = split_ws [] s"

section \<open>1. Bank of Canada policy rate: \<^verbatim>\<open>clean_boc_policy_rate\<close>\<close>

text \<open>
  The input is the frame that \<^verbatim>\<open>read_csv\<close> returns, one pair per row: the text of the
  \<^verbatim>\<open>date\<close> cell and \<^verbatim>\<open>str(x)\<close> of the \<^verbatim>\<open>policy_rate_pct\<close> cell. The library
  parsers \<^verbatim>\<open>pd.to_datetime(errors="coerce")\<close> and \<^verbatim>\<open>pd.to_numeric(errors="coerce")\<close>
  are parameters: a cell they cannot parse becomes \<open>None\<close>.
\<close>

record boc_row =
  date :: date
  policy_rate_pct :: rat

text \<open>The row filter \<^verbatim>\<open>lambda x: str(x).replace(".", "", 1).isdigit()\<close>.\<close>

definition rate_is_numeric :: "string \<Rightarrow> bool" where
  "rate_is_numeric x = isdigit (remove1 (CHR ''.'') x)"

text \<open>\<^verbatim>\<open>dropna(subset=["date", "policy_rate_pct"])\<close> after both coercions.\<close>

fun dropna_boc :: "(date option \<times> num) list \<Rightarrow> boc_row list" where
  "dropna_boc [] = []"
| "dropna_boc ((Some d, Some v) # rs) = \<lparr>date = d, policy_rate_pct = v\<rparr> # dropna_boc rs"
| "dropna_boc (_ # rs) = dropna_boc rs"

text \<open>\<^verbatim>\<open>sort_values("date")\<close>. The library fixes no order among rows of equal date;
  here they keep their input order, and no statement below depends on that order.\<close>

definition boc_daily :: "(string \<Rightarrow> date option) \<Rightarrow> (string \<Rightarrow> num) \<Rightarrow> (string \<times> string) list \<Rightarrow> boc_row list" where
  "boc_daily to_datetime to_numeric df =
     (let df1 = filter (\<lambda>(d, x). rate_is_numeric x) df;
          df2 = map (\<lambda>(d, x). (to_datetime d, to_numeric x)) df1
      in sort_key date (dropna_boc df2))"

text \<open>\<^verbatim>\<open>series.shift(1)\<close>: every value moves down one row, the first row gets NaN.\<close>

definition shift1 :: "'a list \<Rightarrow> 'a option list" where
  "shift1 xs = (if xs = [] then [] else None # map Some (butlast xs))"

text \<open>\<^verbatim>\<open>boc_daily.loc[rate.shift(1) != rate, ["date", "policy_rate_pct"]]\<close>.\<close>

definition boc_changes :: "boc_row list \<Rightarrow> boc_row list" where
  "boc_changes daily =
     map fst (filter (\<lambda>(r, prev). prev \<noteq> Some (policy_rate_pct r))
                (zip daily (shift1 (map policy_rate_pct daily))))"

text \<open>\<^verbatim>\<open>set_index("date").resample("M").last()\<close>: one bin per calendar month from the
  month of the earliest date to the month of the latest one, labelled by the month's last
  day; a bin holds the last value observed in that month, NaN when the month has no row.\<close>

definition last_opt :: "'a list \<Rightarrow> 'a option" where
  "last_opt xs = (if xs = [] then None else Some (last xs))"

definition min_list_nat :: "nat list \<Rightarrow> nat" where
  "min_list_nat ks = fold min ks (hd ks)"

definition max_list_nat :: "nat list \<Rightarrow> nat" where
  "max_list_nat ks = fold max ks (hd ks)"

definition boc_monthly_end :: "boc_row list \<Rightarrow> (date \<times> num) list" where
  "boc_monthly_end daily =
     (if daily = [] then []
      else let ks = map (\<lambda>r. month_index (date r)) daily
           in map (\<lambda>k. (month_end_of_index k,
                         last_opt (map policy_rate_pct (filter (\<lambda>r. month_index (date r) = k) daily))))
                  [min_list_nat ks ..< Suc (max_list_nat ks)])"

definition clean_boc_policy_rate ::
  "(string \<Rightarrow> date option) \<Rightarrow> (string \<Rightarrow> num) \<Rightarrow> (string \<times> string) list
     \<Rightarrow> boc_row list \<times> (date \<times> num) list \<times> boc_row list" where
  "clean_boc_policy_rate to_datetime to_numeric df =
     (let daily = boc_daily to_datetime to_numeric df
      in (daily, boc_monthly_end daily, boc_changes daily))"

subsection \<open>Instances of the library parsers on plain notation\<close>

text \<open>The parsers on the notation of the examples: ISO dates \<^verbatim>\<open>YYYY-MM-DD\<close> and
  decimal numerals with an optional sign. Every other text is read as unparseable.\<close>

definition ascii_digit :: "char \<Rightarrow> bool" where
  "ascii_digit c = (let n = (of_char c :: nat) in 48 \<le> n \<and> n \<le> 57)"

definition nat_of_digits :: "string \<Rightarrow> nat" where
  "nat_of_digits s = foldl (\<lambda>a c. 10 * a + (of_char c - 48)) 0 s"

definition all_digits :: "string \<Rightarrow> bool" where
  "all_digits s = (s \<noteq> [] \<and> list_all ascii_digit s)"

definition iso_date :: "string \<Rightarrow> date option" where
  "iso_date s =
     (let y = take 4 s; m = take 2 (drop 5 s); d = take 2 (drop 8 s);
          dt = (nat_of_digits y, nat_of_digits m, nat_of_digits d)
      in if length s = 10 \<and> s ! 4 = CHR ''-'' \<and> s ! 7 = CHR ''-'' \<and>
            all_digits y \<and> all_digits m \<and> all_digits d \<and> valid_date dt
         then Some dt else None)"

definition unsigned_decimal :: "string \<Rightarrow> num" where
  "unsigned_decimal s =
     (let ip = takeWhile (\<lambda>c. c \<noteq> CHR ''.'') s;
          fp = drop 1 (dropWhile (\<lambda>c. c \<noteq> CHR ''.'') s)
      in if all_digits (ip @ fp)
         then Some (of_nat (nat_of_digits (ip @ fp)) / 10 ^ length fp) else None)"

definition plain_decimal :: "string \<Rightarrow> num" where
  "plain_decimal s =
     (case s of
        [] \<Rightarrow> None
      | c # cs \<Rightarrow> if c = CHR ''-'' then map_option uminus (unsigned_decimal cs)
                  else if c = CHR ''+'' then unsigned_decimal cs
                  else unsigned_decimal s)"

subsection \<open>Auxiliary definitions for the statements about the policy rate\<close>

text \<open>The change-events table as a recursion over the daily rows, carrying the previous rate.\<close>

fun changes_from :: "rat option \<Rightarrow> boc_row list \<Rightarrow> boc_row list" where
  "changes_from prev [] = []"
| "changes_from prev (r # rs) =
     (if prev \<noteq> Some (policy_rate_pct r) then [r] else []) @ changes_from (Some (policy_rate_pct r)) rs"

definition prev_rate :: "rat option \<Rightarrow> boc_row list \<Rightarrow> nat \<Rightarrow> rat option" where
  "prev_rate prev rs i = (if i = 0 then prev else Some (policy_rate_pct (rs ! (i - 1))))"

text \<open>The last rate observed in month \<open>k\<close>, and the last rate observed on or before a date.\<close>

definition last_in_month :: "boc_row list \<Rightarrow> nat \<Rightarrow> num" where
  "last_in_month daily k = last_opt (map policy_rate_pct (filter (\<lambda>r. month_index (date r) = k) daily))"

definition last_on_or_before :: "boc_row list \<Rightarrow> date \<Rightarrow> num" where
  "last_on_or_before daily d = last_opt (map policy_rate_pct (filter (\<lambda>r. date r \<le> d) daily))"

definition months_of :: "boc_row list \<Rightarrow> nat set" where
  "months_of daily = (\<lambda>r. month_index (date r)) ` set daily"

text \<open>The policy-rate example of the specification: \<^verbatim>\<open>str(x)\<close> of the cells.\<close>

definition boc_example :: "(string \<times> string) list" where
  "boc_example = [(''2024-01-01'', ''5.00''), (''2024-01-02'', ''5.00''), (''2024-01-03'', ''5.25'')]"

definition boc_gap_example :: "(string \<times> string) list" where
  "boc_gap_example = [(''2024-01-15'', ''5.00''), (''2024-03-10'', ''5.25'')]"

section \<open>2. Alberta housing starts: \<^verbatim>\<open>clean_housing_starts\<close>\<close>

text \<open>
  The raw frame by columns: the \<^verbatim>\<open>Geography\<close> column and, in file order, every other
  column with its label. A cell is \<open>None\<close> when \<^verbatim>\<open>read_csv\<close> found it empty (NaN) and
  the text of its value otherwise. All columns have one cell per row.
\<close>

record starts_frame =
  geography :: "string option list"
  month_columns :: "(string \<times> string option list) list"

text \<open>\<^verbatim>\<open>raw["Geography"].str.strip().str.lower() == "alberta"\<close>.\<close>

definition is_alberta :: "string option \<Rightarrow> bool" where
  "is_alberta g = (case g of None \<Rightarrow> False | Some s \<Rightarrow> lower (strip s) = ''alberta'')"

text \<open>Boolean-mask row selection \<^verbatim>\<open>raw[mask]\<close>, applied to one column.\<close>

definition select_rows :: "bool list \<Rightarrow> 'a list \<Rightarrow> 'a list" where
  "select_rows sel xs = map snd (filter fst (zip sel xs))"

text \<open>\<^verbatim>\<open>ab_row.melt(var_name="period_label", value_name="starts_saar_units")\<close>: column by
  column, one pair per selected row.\<close>

definition melt_starts :: "bool list \<Rightarrow> (string \<times> string option list) list \<Rightarrow> (string \<times> string option) list" where
  "melt_starts sel cols = concat (map (\<lambda>(lbl, cells). map (\<lambda>c. (lbl, c)) (select_rows sel cells)) cols)"

text \<open>\<^verbatim>\<open>dropna(subset=["starts_saar_units"])\<close>, before any coercion.\<close>

fun dropna_starts :: "(string \<times> string option) list \<Rightarrow> (string \<times> string) list" where
  "dropna_starts [] = []"
| "dropna_starts ((lbl, None) # rs) = dropna_starts rs"
| "dropna_starts ((lbl, Some v) # rs) = (lbl, v) # dropna_starts rs"

text \<open>\<^verbatim>\<open>sort_values("date")\<close> puts NaT last.\<close>

definition nat_last_key :: "date option \<Rightarrow> nat \<times> date" where
  "nat_last_key d = (case d of None \<Rightarrow> (1, (0, 0, 0)) | Some x \<Rightarrow> (0, x))"

text \<open>The mean of the numbers of a bin; NaN for a bin without number.\<close>

definition mean_opt :: "rat list \<Rightarrow> num" where
  "mean_opt xs = (if xs = [] then None else Some (sum_list xs / of_nat (length xs)))"

fun dated_rows :: "(date option \<times> num) list \<Rightarrow> (date \<times> num) list" where
  "dated_rows [] = []"
| "dated_rows ((None, v) # rs) = dated_rows rs"
| "dated_rows ((Some d, v) # rs) = (d, v) # dated_rows rs"

fun numbers :: "num list \<Rightarrow> rat list" where
  "numbers [] = []"
| "numbers (None # vs) = numbers vs"
| "numbers (Some x # vs) = x # numbers vs"

text \<open>The numbers of the monthly rows whose date lies in quarter \<open>q\<close>.\<close>

definition quarter_values :: "(date option \<times> num) list \<Rightarrow> nat \<Rightarrow> rat list" where
  "quarter_values rows q = numbers (map snd (filter (\<lambda>(d, v). quarter_index d = q) (dated_rows rows)))"

text \<open>\<^verbatim>\<open>set_index("date").resample("Q").mean(numeric_only=True).reset_index()\<close>: one bin
  per quarter from the quarter of the earliest date to the quarter of the latest one,
  labelled by the quarter's last day; rows without date fall in no bin; the mean skips
  NaN. An empty frame gives an empty frame; a frame whose dates are all NaT has no range of
  bins and the call raises.\<close>

definition resample_q_mean :: "(date option \<times> num) list \<Rightarrow> error + (date \<times> num) list" where
  "resample_q_mean rows =
     (if rows = [] then Inr []
      else if dated_rows rows = [] then Inl ValueError
      else let qs = map (\<lambda>(d, v). quarter_index d) (dated_rows rows)
           in Inr (map (\<lambda>q. (quarter_end_of_index q, mean_opt (quarter_values rows q)))
                     [min_list_nat qs ..< Suc (max_list_nat qs)]))"

text \<open>The parameters are \<^verbatim>\<open>pd.to_datetime(format="%b-%y-%d", errors="coerce")\<close> and
  \<^verbatim>\<open>pd.to_numeric(errors="coerce")\<close>.\<close>

definition starts_monthly :: "(string \<Rightarrow> date option) \<Rightarrow> (string \<Rightarrow> num) \<Rightarrow> starts_frame \<Rightarrow> (date option \<times> num) list" where
  "starts_monthly to_datetime to_numeric raw =
     (let ab_row = melt_starts (map is_alberta (geography raw)) (month_columns raw);
          df = dropna_starts ab_row;
          df2 = map (\<lambda>(lbl, v). (map_option month_end (to_datetime (lbl @ ''-01'')), to_numeric v)) df
      in sort_key (\<lambda>(d, v). nat_last_key d) df2)"

definition clean_housing_starts ::
  "(string \<Rightarrow> date option) \<Rightarrow> (string \<Rightarrow> num) \<Rightarrow> starts_frame
     \<Rightarrow> error + ((date option \<times> num) list \<times> (date \<times> num) list)" where
  "clean_housing_starts to_datetime to_numeric raw =
     (if \<not> list_ex is_alberta (geography raw) then Inl ValueError
      else let monthly = starts_monthly to_datetime to_numeric raw
           in case resample_q_mean monthly of
                Inl e \<Rightarrow> Inl e
              | Inr quarterly \<Rightarrow> Inr (monthly, quarterly))"

subsection \<open>An instance of the date parser for the labels of the examples\<close>

text \<open>\<^verbatim>\<open>%b-%y-%d\<close> on texts of the shape \<^verbatim>\<open>Jan-24-01\<close>: an abbreviated English month
  name in any case, a two-digit year (00 to 68 is 2000 to 2068, 69 to 99 is 1969 to 1999)
  and a two-digit day.\<close>

definition month_of_abbrev :: "string \<Rightarrow> nat option" where
  "month_of_abbrev s =
     map_of [(''jan'', 1), (''feb'', 2), (''mar'', 3), (''apr'', 4), (''may'', 5), (''jun'', 6),
             (''jul'', 7), (''aug'', 8), (''sep'', 9), (''oct'', 10), (''nov'', 11), (''dec'', 12)] (lower s)"

definition mon_yy_dd_date :: "string \<Rightarrow> date option" where
  "mon_yy_dd_date s =
     (let yy = take 2 (drop 4 s); dd = take 2 (drop 7 s)
      in case month_of_abbrev (take 3 s) of
           None \<Rightarrow> None
         | Some m \<Rightarrow>
             let y = (if nat_of_digits yy < 69 then 2000 + nat_of_digits yy else 1900 + nat_of_digits yy);
                 dt = (y, m, nat_of_digits dd)
             in if length s = 9 \<and> s ! 3 = CHR ''-'' \<and> s ! 6 = CHR ''-'' \<and>
                   all_digits yy \<and> all_digits dd \<and> valid_date dt
                then Some dt else None)"

definition starts_q1_example :: starts_frame where
  "starts_q1_example =
     \<lparr>geography = [Some ''Canada'', Some '' Alberta ''],
      month_columns = [(''Jan-24'', [Some ''200000'', Some ''28000'']),
                       (''Feb-24'', [Some ''210000'', Some ''30000'']),
                       (''Mar-24'', [Some ''220000'', Some ''31000''])]\<rparr>"

definition starts_gap_example :: starts_frame where
  "starts_gap_example =
     \<lparr>geography = [Some ''Alberta''],
      month_columns = [(''Jan-24'', [Some ''28000'']), (''Apr-24'', [None]), (''Jul-24'', [Some ''31000''])]\<rparr>"

definition starts_text_example :: starts_frame where
  "starts_text_example =
     \<lparr>geography = [Some ''Alberta''],
      month_columns = [(''Jan-24'', [Some ''28000'']), (''Feb-24'', [Some ''x'']), (''Mar-24'', [None])]\<rparr>"

text \<open>The quarters in which the monthly table has a dated row.\<close>

definition quarters_of :: "(date option \<times> num) list \<Rightarrow> nat set" where
  "quarters_of rows = (\<lambda>(d, v). quarter_index d) ` set (dated_rows rows)"

section \<open>3. International migration: \<^verbatim>\<open>clean_international_migration\<close>\<close>

text \<open>
  One input row after the column names are normalised: the text of the reference period
  and \<^verbatim>\<open>astype(str)\<close> of the three count cells.
\<close>

record mig_raw =
  reference_period :: string
  immigrants_cell :: string
  net_emigration_cell :: string
  net_non_permanent_residents_cell :: string

record mig_row =
  quarter :: date
  immigrants :: num
  net_non_permanent_residents :: num
  net_emigration :: num
  total_pressure :: num

text \<open>A row of the long table: \<^verbatim>\<open>geo\<close>, \<^verbatim>\<open>quarter\<close>, \<^verbatim>\<open>component\<close>, \<^verbatim>\<open>value\<close>.\<close>

type_synonym mig_long = "string \<times> date \<times> string \<times> num"

text \<open>\<^verbatim>\<open>re.sub(r"Q(\d)\s+(\d{4})", r"\2Q\1", s)\<close>: a match at the head of \<open>s\<close> gives
  the replacement text and the rest of \<open>s\<close> after the match.\<close>

definition match_quarter :: "string \<Rightarrow> (string \<times> string) option" where
  "match_quarter s =
     (case s of
        q # d # rest \<Rightarrow>
          (let ws = takeWhile isspace_char rest; r2 = dropWhile isspace_char rest
           in if q = CHR ''Q'' \<and> ascii_digit d \<and> ws \<noteq> [] \<and> 4 \<le> length r2 \<and>
                 list_all ascii_digit (take 4 r2)
              then Some (take 4 r2 @ [CHR ''Q'', d], drop 4 r2) else None)
      | _ \<Rightarrow> None)"

function sub_quarter :: "string \<Rightarrow> string" where
  "sub_quarter [] = []"
| "sub_quarter (c # cs) =
     (if match_quarter (c # cs) = None then c # sub_quarter cs
      else fst (the (match_quarter (c # cs))) @ sub_quarter (snd (the (match_quarter (c # cs)))))"
  by pat_completeness auto
termination
proof (relation "measure length")
  show "wf (measure length)" by simp
next
  fix c :: char and cs :: string
  show "(cs, c # cs) \<in> measure length" by simp
next
  fix c :: char and cs :: string
  assume "match_quarter (c # cs) \<noteq> None"
  then obtain rep rest where m: "match_quarter (c # cs) = Some (rep, rest)" by auto
  then obtain d r where "cs = d # r" "rest = drop 4 (dropWhile isspace_char r)"
    by (auto simp: match_quarter_def Let_def split: list.splits if_splits)
  then have "length rest < length (c # cs)"
    using length_dropWhile_le [of isspace_char r] by simp
  then show "(snd (the (match_quarter (c # cs))), c # cs) \<in> measure length"
    using m by simp
qed

text \<open>A count cell: \<^verbatim>\<open>replace({"..": nan, "...": nan})\<close>, then
  \<^verbatim>\<open>pd.to_numeric(col.str.replace(",", ""), errors="coerce")\<close>.\<close>

definition num_cell :: "(string \<Rightarrow> num) \<Rightarrow> string \<Rightarrow> num" where
  "num_cell to_numeric s =
     (if s = ''..'' \<or> s = ''...'' then None else to_numeric (replace_char (CHR '','') [] s))"

text \<open>Apply a failing function to every element; the first failure is the result.\<close>

fun traverse :: "('a \<Rightarrow> error + 'b) \<Rightarrow> 'a list \<Rightarrow> error + 'b list" where
  "traverse f [] = Inr []"
| "traverse f (x # xs) =
     (case f x of
        Inl e \<Rightarrow> Inl e
      | Inr y \<Rightarrow> (case traverse f xs of Inl e \<Rightarrow> Inl e | Inr ys \<Rightarrow> Inr (y # ys)))"

text \<open>The row of the wide frame for one input row whose period is \<open>q\<close>, with
  \<^verbatim>\<open>df["total_pressure"] = df["immigrants"] + df["net_non_permanent_residents"]\<close>.\<close>

definition mig_wide_row :: "(string \<Rightarrow> num) \<Rightarrow> mig_raw \<Rightarrow> date \<Rightarrow> mig_row" where
  "mig_wide_row to_numeric r q =
     (let imm = num_cell to_numeric (immigrants_cell r);
          nem = num_cell to_numeric (net_emigration_cell r);
          npr = num_cell to_numeric (net_non_permanent_residents_cell r)
      in \<lparr>quarter = q, immigrants = imm, net_non_permanent_residents = npr, net_emigration = nem,
          total_pressure = nan_add imm npr\<rparr>)"

text \<open>\<^verbatim>\<open>melt(id_vars="quarter", var_name="component", value_name="value")\<close>: column by
  column in the order of the wide frame.\<close>

definition mig_components :: "(string \<times> (mig_row \<Rightarrow> num)) list" where
  "mig_components =
     [(''immigrants'', immigrants), (''net_non_permanent_residents'', net_non_permanent_residents),
      (''net_emigration'', net_emigration), (''total_pressure'', total_pressure)]"

definition melt_wide :: "mig_row list \<Rightarrow> (date \<times> string \<times> num) list" where
  "melt_wide wide = concat (map (\<lambda>(name, sel). map (\<lambda>r. (quarter r, name, sel r)) wide) mig_components)"

text \<open>The parameter \<open>period\<close> is \<^verbatim>\<open>pd.PeriodIndex(..., freq="Q").to_timestamp("Q")\<close> on
  one label; \<open>None\<close> when the constructor raises.\<close>

definition clean_international_migration ::
  "(string \<Rightarrow> date option) \<Rightarrow> (string \<Rightarrow> num) \<Rightarrow> mig_raw list \<Rightarrow> error + (mig_row list \<times> mig_long list)" where
  "clean_international_migration period to_numeric df =
     (case traverse (\<lambda>r. case period (sub_quarter (strip (reference_period r))) of
                            None \<Rightarrow> Inl ValueError
                          | Some q \<Rightarrow> Inr (mig_wide_row to_numeric r q)) df of
        Inl e \<Rightarrow> Inl e
      | Inr rows \<Rightarrow>
          (let mig_quarterly_wide = sort_key quarter rows;
               mig_quarterly_long =
                 sort_key (\<lambda>(geo, q, component, v). (q, component))
                   (map (\<lambda>(q, component, v). (''Alberta'', q, component, v)) (melt_wide mig_quarterly_wide))
           in Inr (mig_quarterly_wide, mig_quarterly_long)))"

subsection \<open>The library's \<^verbatim>\<open>DataFrame.pivot\<close>\<close>

text \<open>\<^verbatim>\<open>long.pivot(index=i, columns=c, values=v)\<close>: raises when an (index, column) pair
  occurs twice; otherwise the index holds the distinct index keys in ascending order, there
  is one column for every distinct column key, in ascending order, and a cell without entry
  in the long table is NaN.\<close>

definition pivot :: "('i::linorder \<times> 'c::linorder \<times> num) list \<Rightarrow> error + ('i list \<times> ('c \<times> num list) list)" where
  "pivot long =
     (let keys = map (\<lambda>(i, c, v). (i, c)) long
      in if \<not> distinct keys then Inl ValueError
         else let index = sort (remdups (map fst keys));
                  columns = sort (remdups (map snd keys));
                  cell = (\<lambda>i c. case map_of (map (\<lambda>(i, c, v). ((i, c), v)) long) (i, c) of
                                  None \<Rightarrow> None | Some v \<Rightarrow> v)
              in Inr (index, map (\<lambda>c. (c, map (\<lambda>i. cell i c) index)) columns))"

subsection \<open>Reading the long table of the migration cleaner back\<close>

text \<open>Pivot the long table on the component column, indexed by quarter, and read the
  rows of the pivoted frame as rows of the wide table; a column is looked up by its name.\<close>

definition column :: "(string \<times> num list) list \<Rightarrow> string \<Rightarrow> error + num list" where
  "column cols name = (case map_of cols name of None \<Rightarrow> Inl KeyError | Some xs \<Rightarrow> Inr xs)"

definition wide_of_pivot :: "date list \<times> (string \<times> num list) list \<Rightarrow> error + mig_row list" where
  "wide_of_pivot p =
     (case p of (index, cols) \<Rightarrow>
        if index = [] then Inr []
        else (case (column cols ''immigrants'', column cols ''net_non_permanent_residents'',
                    column cols ''net_emigration'', column cols ''total_pressure'') of
                (Inr a, Inr b, Inr c, Inr d) \<Rightarrow>
                  Inr (map (\<lambda>(q, a, b, c, d).
                         \<lparr>quarter = q, immigrants = a, net_non_permanent_residents = b,
                          net_emigration = c, total_pressure = d\<rparr>)
                       (zip index (zip a (zip b (zip c d)))))
              | _ \<Rightarrow> Inl KeyError))"

definition pivot_long :: "mig_long list \<Rightarrow> error + mig_row list" where
  "pivot_long long =
     (case pivot (map (\<lambda>(geo, q, component, v). (q, component, v)) long) of
        Inl e \<Rightarrow> Inl e
      | Inr p \<Rightarrow> wide_of_pivot p)"

text \<open>The columns of the wide table other than \<^verbatim>\<open>net_emigration\<close>.\<close>

definition without_net_emigration :: "mig_row \<Rightarrow> date \<times> num \<times> num \<times> num" where
  "without_net_emigration r = (quarter r, immigrants r, net_non_permanent_residents r, total_pressure r)"

subsection \<open>An instance of the period parser for the labels of the examples\<close>

text \<open>A label of the shape \<^verbatim>\<open>2024Q1\<close>, as a timestamp on the last day of the quarter.\<close>

definition yyyy_q_period :: "string \<Rightarrow> date option" where
  "yyyy_q_period s =
     (let y = nat_of_digits (take 4 s); q = nat_of_digits (drop 5 s)
      in if length s = 6 \<and> all_digits (take 4 s) \<and> s ! 4 = CHR ''Q'' \<and> all_digits (drop 5 s) \<and>
            1 \<le> q \<and> q \<le> 4
         then Some (y, 3 * q, days_in_month y (3 * q)) else None)"

definition mig_example :: "mig_raw list" where
  "mig_example =
     [\<lparr>reference_period = ''Q2 2024'', immigrants_cell = ''1,500'', net_emigration_cell = ''300'',
       net_non_permanent_residents_cell = ''..''\<rparr>,
      \<lparr>reference_period = '' Q1  2024'', immigrants_cell = ''1,000'', net_emigration_cell = ''200'',
       net_non_permanent_residents_cell = ''2,500''\<rparr>]"

definition mig_duplicate_example :: "mig_raw list" where
  "mig_duplicate_example =
     [\<lparr>reference_period = ''Q1 2024'', immigrants_cell = ''1000'', net_emigration_cell = ''200'',
       net_non_permanent_residents_cell = ''2500''\<rparr>,
      \<lparr>reference_period = ''Q1 2024'', immigrants_cell = ''1100'', net_emigration_cell = ''210'',
       net_non_permanent_residents_cell = ''2600''\<rparr>]"

text \<open>The columns of a wide row other than \<^verbatim>\<open>net_emigration\<close>, as a function of the
  period label and the two summed cells of the input row.\<close>

definition mig_view :: "(string \<Rightarrow> date option) \<Rightarrow> (string \<Rightarrow> num) \<Rightarrow> string \<times> string \<times> string \<Rightarrow> date \<times> num \<times> num \<times> num" where
  "mig_view period tn t =
     (case t of (ref, imm, npr) \<Rightarrow>
        (the (period (sub_quarter (strip ref))), num_cell tn imm, num_cell tn npr,
         nan_add (num_cell tn imm) (num_cell tn npr)))"

text \<open>The long table without its constant \<^verbatim>\<open>geo\<close> column.\<close>

definition long_triples :: "mig_long list \<Rightarrow> (date \<times> string \<times> num) list" where
  "long_triples long = map (\<lambda>(geo, q, component, v). (q, component, v)) long"

section \<open>5. Interprovincial migration: \<^verbatim>\<open>clean_interprov_migration\<close>\<close>

text \<open>
  The frame that \<^verbatim>\<open>read_csv\<close> returns, by columns: the cells of the first column (the
  flow labels), and every other column with its name (a quarter label) and
  \<^verbatim>\<open>astype(str)\<close> of its cells. All columns have one cell per data row, and no quarter
  column is named \<^verbatim>\<open>flow_type\<close>.
\<close>

record interprov_frame =
  first_column :: "string list"
  quarter_columns :: "(string \<times> string list) list"

text \<open>A row of the long table: \<^verbatim>\<open>flow_type\<close>, \<^verbatim>\<open>quarter_label\<close>, \<^verbatim>\<open>people\<close>,
  \<^verbatim>\<open>quarter\<close>.\<close>

type_synonym interprov_long = "string \<times> string \<times> num \<times> date"

text \<open>\<^verbatim>\<open>df.iloc[1:3]\<close>, applied to one column.\<close>

definition iloc_1_3 :: "'a list \<Rightarrow> 'a list" where
  "iloc_1_3 xs = take 2 (drop 1 xs)"

text \<open>\<^verbatim>\<open>df.melt(id_vars="flow_type", var_name="quarter_label", value_name="people")\<close> on
  the two selected rows.\<close>

definition melt_interprov :: "interprov_frame \<Rightarrow> (string \<times> string \<times> string) list" where
  "melt_interprov df =
     concat (map (\<lambda>(lbl, cells). map (\<lambda>(flow, cell). (flow, lbl, cell))
                    (zip (iloc_1_3 (first_column df)) (iloc_1_3 cells)))
               (quarter_columns df))"

text \<open>\<^verbatim>\<open>pd.Timestamp(year=y, month=m, day=1) + pd.offsets.MonthEnd(0)\<close>: the month must be
  1 to 12 and the year 1 to 9999.\<close>

definition timestamp_month_end :: "int \<Rightarrow> int \<Rightarrow> error + date" where
  "timestamp_month_end y m =
     (if 1 \<le> m \<and> m \<le> 12 \<and> 1 \<le> y \<and> y \<le> 9999
      then Inr (month_end (nat y, nat m, 1)) else Inl ValueError)"

text \<open>The local function \<^verbatim>\<open>to_q_end\<close>; the parameter is Python's \<^verbatim>\<open>int\<close> on a string,
  \<open>None\<close> when it raises.\<close>

definition to_q_end :: "(string \<Rightarrow> int option) \<Rightarrow> string \<Rightarrow> error + date" where
  "to_q_end py_int lbl =
     (case split (strip lbl) of
        [q, year] \<Rightarrow>
          (case py_int (replace_char (CHR ''Q'') [] q) of
             None \<Rightarrow> Inl ValueError
           | Some qnum \<Rightarrow>
               (case py_int year of
                  None \<Rightarrow> Inl ValueError
                | Some y \<Rightarrow> timestamp_month_end y (qnum * 3)))
      | _ \<Rightarrow> Inl ValueError)"

text \<open>The long table. The parameter \<open>to_float\<close> is \<^verbatim>\<open>astype(float)\<close> on one text:
  \<open>None\<close> when it raises, \<open>Some None\<close> for NaN.\<close>

definition interprov_long_table ::
  "(string \<Rightarrow> int option) \<Rightarrow> (string \<Rightarrow> num option) \<Rightarrow> interprov_frame \<Rightarrow> error + interprov_long list" where
  "interprov_long_table py_int to_float df =
     (case traverse (\<lambda>(flow, lbl, cell).
                       case to_float (strip (replace_char (CHR '','') [] cell)) of
                         None \<Rightarrow> Inl ValueError
                       | Some p \<Rightarrow> Inr (flow, lbl, p)) (melt_interprov df) of
        Inl e \<Rightarrow> Inl e
      | Inr with_people \<Rightarrow>
          traverse (\<lambda>(flow, lbl, p). case to_q_end py_int lbl of
                                        Inl e \<Rightarrow> Inl e
                                      | Inr q \<Rightarrow> Inr (flow, lbl, p, q)) with_people)"

subsection \<open>The wide frame\<close>

text \<open>A frame is the list of its columns, each a name and a series; names may repeat.\<close>

datatype series = Timestamps "date list" | Floats "num list"

type_synonym frame = "(string \<times> series) list"

definition series_length :: "series \<Rightarrow> nat" where
  "series_length s = (case s of Timestamps ds \<Rightarrow> length ds | Floats xs \<Rightarrow> length xs)"

definition nrows :: "frame \<Rightarrow> nat" where
  "nrows w = (case w of [] \<Rightarrow> 0 | (c, s) # _ \<Rightarrow> series_length s)"

text \<open>\<^verbatim>\<open>reset_index()\<close> after the pivot: the index becomes the first column, named
  \<^verbatim>\<open>quarter\<close>; it raises when a column of that name exists already.\<close>

definition reset_index :: "date list \<times> (string \<times> num list) list \<Rightarrow> error + frame" where
  "reset_index p =
     (case p of (index, cols) \<Rightarrow>
        if ''quarter'' \<in> set (map fst cols) then Inl ValueError
        else Inr ((''quarter'', Timestamps index) # map (\<lambda>(c, xs). (c, Floats xs)) cols))"

text \<open>\<^verbatim>\<open>str(c).strip().lower().replace(NBSP, " ")\<close>, where NBSP is the no-break
  space U+00A0.\<close>

definition norm_col :: "string \<Rightarrow> string" where
  "norm_col c = replace_char (char_of (160 :: nat)) '' '' (lower (strip c))"

text \<open>The loop that fills \<^verbatim>\<open>rename_map\<close>: the new name of a column.\<close>

definition canonical_col :: "string \<Rightarrow> string" where
  "canonical_col c =
     (if contains ''in-migrants'' c then ''interprov_in''
      else if contains ''out-migrants'' c then ''interprov_out'' else c)"

definition rename_columns :: "(string \<Rightarrow> string) \<Rightarrow> frame \<Rightarrow> frame" where
  "rename_columns f w = map (\<lambda>(c, s). (f c, s)) w"

text \<open>\<^verbatim>\<open>wide[name] = s\<close>: every column of that name is replaced; without such a column
  a new last column is added.\<close>

definition setitem :: "frame \<Rightarrow> string \<Rightarrow> series \<Rightarrow> frame" where
  "setitem w name s =
     (if name \<in> set (map fst w) then map (\<lambda>(c, old). if c = name then (c, s) else (c, old)) w
      else w @ [(name, s)])"

text \<open>\<^verbatim>\<open>wide[name]\<close> as an operand of the subtraction: one float column. With several
  columns of that name the operand is a frame, and assigning the difference to the single
  column \<^verbatim>\<open>interprov_net\<close> raises.\<close>

definition get_floats :: "frame \<Rightarrow> string \<Rightarrow> error + num list" where
  "get_floats w name =
     (case filter (\<lambda>(c, s). c = name) w of
        [] \<Rightarrow> Inl KeyError
      | [(c, Floats xs)] \<Rightarrow> Inr xs
      | _ \<Rightarrow> Inl ValueError)"

text \<open>\<^verbatim>\<open>sort_values("quarter").reset_index(drop=True)\<close>: raises when the label is not
  unique; rows of equal quarter keep their order.\<close>

definition reorder :: "date list \<Rightarrow> series \<Rightarrow> series" where
  "reorder ds s =
     (case s of
        Timestamps xs \<Rightarrow> Timestamps (map snd (sort_key fst (zip ds xs)))
      | Floats xs \<Rightarrow> Floats (map snd (sort_key fst (zip ds xs))))"

definition sort_values_quarter :: "frame \<Rightarrow> error + frame" where
  "sort_values_quarter w =
     (case filter (\<lambda>(c, s). c = ''quarter'') w of
        [(c, Timestamps ds)] \<Rightarrow> Inr (map (\<lambda>(c, s). (c, reorder ds s)) w)
      | _ \<Rightarrow> Inl ValueError)"

text \<open>The steps from the pivoted frame to the wide output.\<close>

definition interprov_wide :: "date list \<times> (string \<times> num list) list \<Rightarrow> error + frame" where
  "interprov_wide p =
     (case reset_index p of
        Inl e \<Rightarrow> Inl e
      | Inr w0 \<Rightarrow>
          (let w1 = rename_columns norm_col w0;
               w2 = rename_columns canonical_col w1;
               w3 = (if ''interprov_in'' \<notin> set (map fst w2)
                     then setitem w2 ''interprov_in'' (Floats (replicate (nrows w2) (Some 0))) else w2);
               w4 = (if ''interprov_out'' \<notin> set (map fst w3)
                     then setitem w3 ''interprov_out'' (Floats (replicate (nrows w3) (Some 0))) else w3)
           in case get_floats w4 ''interprov_in'' of
                Inl e \<Rightarrow> Inl e
              | Inr ins \<Rightarrow>
                  (case get_floats w4 ''interprov_out'' of
                     Inl e \<Rightarrow> Inl e
                   | Inr outs \<Rightarrow>
                       sort_values_quarter (setitem w4 ''interprov_net'' (Floats (map2 nan_sub ins outs))))))"

definition clean_interprov_migration ::
  "(string \<Rightarrow> int option) \<Rightarrow> (string \<Rightarrow> num option) \<Rightarrow> interprov_frame
     \<Rightarrow> error + (interprov_long list \<times> frame)" where
  "clean_interprov_migration py_int to_float df =
     (case interprov_long_table py_int to_float df of
        Inl e \<Rightarrow> Inl e
      | Inr long \<Rightarrow>
          (case pivot (map (\<lambda>(flow, lbl, p, q). (q, flow, p)) long) of
             Inl e \<Rightarrow> Inl e
           | Inr p \<Rightarrow>
               (case interprov_wide p of
                  Inl e \<Rightarrow> Inl e
                | Inr wide \<Rightarrow> Inr (long, wide))))"

subsection \<open>Instances of \<^verbatim>\<open>int\<close> and \<^verbatim>\<open>float\<close> on plain notation\<close>

definition plain_int :: "string \<Rightarrow> int option" where
  "plain_int s =
     (case s of
        [] \<Rightarrow> None
      | c # cs \<Rightarrow>
          if c = CHR ''-'' then (if all_digits cs then Some (- int (nat_of_digits cs)) else None)
          else if c = CHR ''+'' then (if all_digits cs then Some (int (nat_of_digits cs)) else None)
          else if all_digits s then Some (int (nat_of_digits s)) else None)"

definition plain_float :: "string \<Rightarrow> num option" where
  "plain_float s =
     (if s = ''nan'' then Some None
      else case plain_decimal s of None \<Rightarrow> None | Some x \<Rightarrow> Some (Some x))"

definition interprov_example :: interprov_frame where
  "interprov_example =
     \<lparr>first_column = [''Alberta'', ''In-migrants'', ''Out-migrants'', ''Source: Statistics Canada''],
      quarter_columns = [(''Q1 2024'', [''persons'', ''10,000'', ''8,000'', ''n/a'']),
                         (''Q2 2024'', [''persons'', ''12,000'', ''9,500'', ''n/a''])]\<rparr>"

definition interprov_row1_changed :: interprov_frame where
  "interprov_row1_changed =
     \<lparr>first_column = [''Alberta'', ''In-migrants'', ''Out-migrants'', ''Source: Statistics Canada''],
      quarter_columns = [(''Q1 2024'', [''persons'', ''11,000'', ''8,000'', ''n/a'']),
                         (''Q2 2024'', [''persons'', ''12,000'', ''9,500'', ''n/a''])]\<rparr>"

definition interprov_literal_out :: interprov_frame where
  "interprov_literal_out =
     \<lparr>first_column = [''Alberta'', ''In-migrants'', ''interprov_out''],
      quarter_columns = [(''Q1 2024'', [''persons'', ''10,000'', ''8,000''])]\<rparr>"

definition interprov_same_quarter :: interprov_frame where
  "interprov_same_quarter =
     \<lparr>first_column = [''Alberta'', ''In-migrants'', ''Out-migrants''],
      quarter_columns = [(''Q1 2024'', [''persons'', ''10,000'', ''8,000'']),
                         (''Q01 2024'', [''persons'', ''12,000'', ''9,500''])]\<rparr>"

definition interprov_same_quarter_one_row :: interprov_frame where
  "interprov_same_quarter_one_row =
     \<lparr>first_column = [''In-migrants''],
      quarter_columns = [(''Q1 2024'', [''10,000'']), (''Q01 2024'', [''12,000''])]\<rparr>"

definition interprov_other_rows_changed :: interprov_frame where
  "interprov_other_rows_changed =
     \<lparr>first_column = [''Canada'', ''In-migrants'', ''Out-migrants'', ''Note'', ''More''],
      quarter_columns = [(''Q1 2024'', [''number'', ''10,000'', ''8,000'', ''999'', ''1'']),
                         (''Q2 2024'', [''number'', ''12,000'', ''9,500'', ''999'', ''2''])]\<rparr>"

text \<open>The columns of a frame that carry a given name, and the invariant that every
  column of a frame has \<open>n\<close> rows.\<close>

definition named :: "string \<Rightarrow> frame \<Rightarrow> frame" where
  "named name w = filter (\<lambda>(c, s). c = name) w"

definition frame_ok :: "nat \<Rightarrow> frame \<Rightarrow> bool" where
  "frame_ok n w = list_all (\<lambda>(c, s). series_length s = n) w"

section \<open>Theorems: policy rate\<close>

subsection \<open>The row filter\<close>

lemma dot_not_digit: "\<not> isdigit_char (CHR ''.'')"
  by (simp add: isdigit_char_def)

lemma list_all_remove1_dot:
  "list_all isdigit_char (remove1 (CHR ''.'') s) =
     (count_list s (CHR ''.'') \<le> 1 \<and> list_all (\<lambda>c. c = CHR ''.'' \<or> isdigit_char c) s)"
proof (induction s)
  case Nil
  then show ?case by simp
next
  case (Cons c s)
  have aux: "list_all isdigit_char s = (count_list s (CHR ''.'') = 0 \<and> list_all (\<lambda>c. c = CHR ''.'' \<or> isdigit_char c) s)" for s
    by (induction s) (auto simp: dot_not_digit)
  show ?case
  proof (cases "c = CHR ''.''")
    case True
    then show ?thesis using aux [of s] by simp
  next
    case False
    then show ?thesis using Cons by auto
  qed
qed

lemma remove1_dot_empty: "(remove1 (CHR ''.'') s = []) = (s = [] \<or> s = ''.'')"
  by (cases s) auto

lemma rate_is_numeric_iff:
  "rate_is_numeric s =
     (count_list s (CHR ''.'') \<le> 1 \<and> list_all (\<lambda>c. c = CHR ''.'' \<or> isdigit_char c) s \<and>
      list_ex isdigit_char s)"
proof -
  have ex: "list_ex isdigit_char s = (s \<noteq> [] \<and> s \<noteq> ''.'')"
    if "count_list s (CHR ''.'') \<le> 1" "list_all (\<lambda>c. c = CHR ''.'' \<or> isdigit_char c) s"
    using that
  proof (cases s)
    case Nil
    then show ?thesis by simp
  next
    case (Cons a t)
    show ?thesis
    proof (cases t)
      case Nil
      then show ?thesis using Cons that by (auto simp: dot_not_digit)
    next
      case (Cons b u)
      then show ?thesis using \<open>s = a # t\<close> that by (auto simp: dot_not_digit split: if_splits)
    qed
  qed
  show ?thesis
    unfolding rate_is_numeric_def isdigit_def list_all_remove1_dot remove1_dot_empty
    using ex by blast
qed

lemma mset_dropna_boc:
  "mset (dropna_boc rs) =
     image_mset (\<lambda>(d, v). \<lparr>date = the d, policy_rate_pct = the v\<rparr>)
       (filter_mset (\<lambda>(d, v). d \<noteq> None \<and> v \<noteq> None) (mset rs))"
  by (induction rs rule: dropna_boc.induct) auto

lemma mset_boc_daily:
  "mset (boc_daily td tn df) =
     image_mset (\<lambda>(ds, x). \<lparr>date = the (td ds), policy_rate_pct = the (tn x)\<rparr>)
       (filter_mset (\<lambda>(ds, x). rate_is_numeric x \<and> td ds \<noteq> None \<and> tn x \<noteq> None) (mset df))"
  unfolding boc_daily_def Let_def mset_sort mset_dropna_boc
  by (induction df) (auto)

subsection \<open>Change events\<close>

lemma zip_shift_changes:
  "map fst (filter (\<lambda>(r, prev). prev \<noteq> Some (policy_rate_pct r))
      (zip rs (prev # map Some (map policy_rate_pct rs)))) = changes_from prev rs"
  by (induction rs arbitrary: prev) auto

lemma zip_butlast: "zip xs (y # map f (butlast xs)) = zip xs (y # map f xs)"
  by (induction xs arbitrary: y) auto

lemma boc_changes_from: "boc_changes daily = changes_from None daily"
proof (cases "daily = []")
  case True
  then show ?thesis by (simp add: boc_changes_def shift1_def)
next
  case False
  have "shift1 (map policy_rate_pct daily) = None # map (\<lambda>r. Some (policy_rate_pct r)) (butlast daily)"
    using False by (simp add: shift1_def map_butlast o_def)
  then have "zip daily (shift1 (map policy_rate_pct daily)) =
        zip daily (None # map Some (map policy_rate_pct daily))"
    using zip_butlast [of daily None "\<lambda>r. Some (policy_rate_pct r)"]
    by (simp add: o_def)
  then show ?thesis
    unfolding boc_changes_def using zip_shift_changes [of daily None] by simp
qed

lemma changes_from_index:
  "changes_from prev rs =
     map (\<lambda>i. rs ! i) (filter (\<lambda>i. prev_rate prev rs i \<noteq> Some (policy_rate_pct (rs ! i))) [0..<length rs])"
proof (induction rs arbitrary: prev)
  case Nil
  then show ?case by simp
next
  case (Cons r rs)
  define P where "P = (\<lambda>i. prev_rate prev (r # rs) i \<noteq> Some (policy_rate_pct ((r # rs) ! i)))"
  have upt: "[0..<length (r # rs)] = 0 # map Suc [0..<length rs]"
    by (simp add: upt_conv_Cons map_Suc_upt del: upt_Suc)
  have shiftP: "P (Suc i) =
        (prev_rate (Some (policy_rate_pct r)) rs i \<noteq> Some (policy_rate_pct (rs ! i)))" for i
    by (cases i) (simp_all add: prev_rate_def P_def)
  have P0: "P 0 = (prev \<noteq> Some (policy_rate_pct r))"
    by (simp add: prev_rate_def P_def)
  have "map (\<lambda>i. (r # rs) ! i) (filter P (0 # map Suc [0..<length rs])) =
        (if P 0 then [r] else []) @ map (\<lambda>i. rs ! i) (filter (\<lambda>i. P (Suc i)) [0..<length rs])"
    by (simp add: filter_map o_def)
  also have "\<dots> = changes_from prev (r # rs)"
    unfolding shiftP P0 Cons.IH [symmetric] by simp
  finally show ?case
    unfolding upt P_def by simp
qed

lemma boc_changes_index:
  "boc_changes daily =
     map (\<lambda>i. daily ! i)
       (filter (\<lambda>i. i = 0 \<or> policy_rate_pct (daily ! (i - 1)) \<noteq> policy_rate_pct (daily ! i))
          [0..<length daily])"
  unfolding boc_changes_from changes_from_index
  by (rule arg_cong [where f = "map _"], rule filter_cong) (auto simp: prev_rate_def)

lemma boc_changes_length:
  "daily \<noteq> [] \<Longrightarrow> length (boc_changes daily) =
     1 + length (filter (\<lambda>i. policy_rate_pct (daily ! i) \<noteq> policy_rate_pct (daily ! Suc i))
          [0..<length daily - 1])"
proof -
  assume ne: "daily \<noteq> []"
  then obtain n where n: "length daily = Suc n" by (cases daily) auto
  have upt: "[0..<Suc n] = 0 # map Suc [0..<n]"
    by (simp add: upt_conv_Cons map_Suc_upt del: upt_Suc)
  show ?thesis
    unfolding boc_changes_index n upt
    by (simp add: filter_map o_def del: upt_Suc)
qed

lemma sorted_boc_daily: "sorted (map date (boc_daily td tn df))"
  by (simp add: boc_daily_def Let_def)

subsection \<open>Month-end levels\<close>

lemma le_month_end_iff:
  assumes "valid_date dt"
  shows "(dt \<le> month_end_of_index k) = (month_index dt \<le> k)"
proof -
  obtain y m d where dt: "dt = (y, m, d)" by (cases dt) auto
  have v: "1 \<le> m" "m \<le> 12" "d \<le> days_in_month y m"
    using assms by (auto simp: valid_date_def dt)
  define q r where "q = k div 12" and "r = k mod 12"
  have k: "k = 12 * q + r" and r: "r < 12" by (simp_all add: q_def r_def)
  have "((y, m, d) \<le> (q, r + 1, days_in_month q (r + 1))) = (y < q \<or> y = q \<and> m \<le> r + 1)"
    using v by (auto simp: less_eq_prod_simp)
  also have "\<dots> = (12 * y + (m - 1) \<le> 12 * q + r)"
    using v r by arith
  finally show ?thesis
    unfolding dt month_end_of_index_def month_index_def q_def [symmetric] r_def [symmetric]
    using k by simp
qed

lemma month_index_mono:
  assumes "valid_date a" "valid_date b" "a \<le> b"
  shows "month_index a \<le> month_index b"
proof -
  obtain y m d where a: "a = (y, m, d)" by (cases a) auto
  obtain y' m' d' where b: "b = (y', m', d')" by (cases b) auto
  show ?thesis
    using assms unfolding a b valid_date_def month_index_def
    by (auto simp: less_eq_prod_simp)
qed

lemma month_end_of_index_inj: "month_end_of_index j = month_end_of_index k \<Longrightarrow> j = k"
proof -
  assume "month_end_of_index j = month_end_of_index k"
  then have "j div 12 = k div 12" "j mod 12 = k mod 12"
    by (auto simp: month_end_of_index_def)
  then show "j = k" by (metis div_mult_mod_eq)
qed

lemma month_index_month_end_of_index: "month_index (month_end_of_index k) = k"
  by (simp add: month_index_def month_end_of_index_def)

lemma sorted_filter_le_split:
  "sorted (map f xs) \<Longrightarrow>
     filter (\<lambda>x. f x \<le> (k::nat)) xs = filter (\<lambda>x. f x < k) xs @ filter (\<lambda>x. f x = k) xs"
proof (induction xs)
  case Nil
  then show ?case by simp
next
  case (Cons x xs)
  then have ih: "filter (\<lambda>x. f x \<le> k) xs = filter (\<lambda>x. f x < k) xs @ filter (\<lambda>x. f x = k) xs"
    and ge: "\<forall>z\<in>set xs. f x \<le> f z"
    by auto
  show ?case
  proof (cases "f x < k")
    case True
    then show ?thesis using ih by simp
  next
    case False
    then have "filter (\<lambda>x. f x < k) xs = []"
      using ge by (auto simp: filter_empty_conv)
    then show ?thesis using ih False by auto
  qed
qed

lemma min_list_nat_Min: "ks \<noteq> [] \<Longrightarrow> min_list_nat ks = Min (set ks)"
  by (cases ks) (simp_all add: min_list_nat_def Min.set_eq_fold [symmetric] del: set_simps)

lemma max_list_nat_Max: "ks \<noteq> [] \<Longrightarrow> max_list_nat ks = Max (set ks)"
  by (cases ks) (simp_all add: max_list_nat_def Max.set_eq_fold [symmetric] del: set_simps)

lemma last_in_month_on_or_before:
  assumes srt: "sorted (map date daily)" and val: "\<forall>r\<in>set daily. valid_date (date r)"
    and ex: "\<exists>r\<in>set daily. month_index (date r) = k"
  shows "last_in_month daily k = last_on_or_before daily (month_end_of_index k)"
proof -
  have "sorted (map (\<lambda>r. month_index (date r)) daily)"
    using srt val
    by (induction daily) (auto intro: month_index_mono)
  then have split: "filter (\<lambda>r. month_index (date r) \<le> k) daily =
      filter (\<lambda>r. month_index (date r) < k) daily @ filter (\<lambda>r. month_index (date r) = k) daily"
    by (rule sorted_filter_le_split)
  have "filter (\<lambda>r. date r \<le> month_end_of_index k) daily = filter (\<lambda>r. month_index (date r) \<le> k) daily"
    using val by (intro filter_cong) (auto simp: le_month_end_iff)
  moreover have "filter (\<lambda>r. month_index (date r) = k) daily \<noteq> []"
    using ex by (auto simp: filter_empty_conv)
  ultimately show ?thesis
    unfolding last_in_month_def last_on_or_before_def last_opt_def split
    by (simp add: last_map)
qed

lemma boc_monthly_end_eq:
  "daily \<noteq> [] \<Longrightarrow> boc_monthly_end daily =
     map (\<lambda>k. (month_end_of_index k, last_in_month daily k))
       [Min ((\<lambda>r. month_index (date r)) ` set daily) ..< Suc (Max ((\<lambda>r. month_index (date r)) ` set daily))]"
  by (simp add: boc_monthly_end_def Let_def min_list_nat_Min max_list_nat_Max last_in_month_def)

lemma last_in_month_None:
  "(last_in_month daily k = None) = (\<not> (\<exists>r\<in>set daily. month_index (date r) = k))"
  by (auto simp: last_in_month_def last_opt_def filter_empty_conv)

subsection \<open>The claims about the policy rate\<close>

lemma iso_date_valid: "iso_date s = Some d \<Longrightarrow> valid_date d"
  by (auto simp: iso_date_def Let_def split: if_splits)

lemma boc_daily_valid:
  assumes "\<forall>s d. td s = Some d \<longrightarrow> valid_date d"
  shows "\<forall>r\<in>set (boc_daily td tn df). valid_date (date r)"
proof
  fix r assume "r \<in> set (boc_daily td tn df)"
  then have "r \<in># mset (boc_daily td tn df)" by simp
  then show "valid_date (date r)"
    unfolding mset_boc_daily using assms by auto
qed


lemmas parse_defs = isdigit_def isdigit_char_def rate_is_numeric_def all_digits_def ascii_digit_def
  nat_of_digits_def iso_date_def unsigned_decimal_def plain_decimal_def valid_date_def
  days_in_month_def is_leap_def

lemma boc_daily_example:
  "boc_daily iso_date plain_decimal boc_example =
     [\<lparr>date = (2024, 1, 1), policy_rate_pct = 5\<rparr>, \<lparr>date = (2024, 1, 2), policy_rate_pct = 5\<rparr>,
      \<lparr>date = (2024, 1, 3), policy_rate_pct = 21 / 4\<rparr>]"
  by (simp add: boc_daily_def boc_example_def parse_defs)

lemma boc_daily_gap_example:
  "boc_daily iso_date plain_decimal boc_gap_example =
     [\<lparr>date = (2024, 1, 15), policy_rate_pct = 5\<rparr>, \<lparr>date = (2024, 3, 10), policy_rate_pct = 21 / 4\<rparr>]"
  by (simp add: boc_daily_def boc_gap_example_def parse_defs)

lemma boc_monthly_gap_example:
  "boc_monthly_end [\<lparr>date = (2024, 1, 15), policy_rate_pct = 5\<rparr>, \<lparr>date = (2024, 3, 10), policy_rate_pct = 21 / 4\<rparr>] =
     [((2024, 1, 31), Some 5), ((2024, 2, 29), None), ((2024, 3, 31), Some (21 / 4))]"
  by (simp add: boc_monthly_end_def min_list_nat_def max_list_nat_def month_index_def upt_rec
      month_end_of_index_def last_opt_def days_in_month_def is_leap_def)

lemma boc_daily_mixed_example:
  "boc_daily iso_date plain_decimal
      [(''2024-01-02'', ''5.00''), (''2024-01-03'', ''.''), (''n/a'', ''5.00''), (''2024-01-01'', ''-1.5'')] =
     [\<lparr>date = (2024, 1, 2), policy_rate_pct = 5\<rparr>]"
  by (simp add: boc_daily_def parse_defs)

text \<open>
  Claim C2. For every input of the policy-rate cleaner the daily series is sorted by
  non-decreasing date, and the change-events table holds the first daily row and each daily
  row whose rate differs from the rate of the row just before it, in the order of the daily
  series; hence its size is one plus the number of adjacent rate differences. For the
  three rows of the example the change events are the rows of 2024-01-01 (rate 5) and of
  2024-01-03 (rate 5.25).
\<close>

theorem boc_daily_sorted_and_changes:
  "(case clean_boc_policy_rate td tn df of (daily, monthly, changes) \<Rightarrow>
      sorted (map date daily) \<and>
      changes = map (\<lambda>i. daily ! i)
        (filter (\<lambda>i. i = 0 \<or> policy_rate_pct (daily ! (i - 1)) \<noteq> policy_rate_pct (daily ! i))
           [0..<length daily]) \<and>
      length changes =
        (if daily = [] then 0
         else 1 + length (filter (\<lambda>i. policy_rate_pct (daily ! i) \<noteq> policy_rate_pct (daily ! Suc i))
                            [0..<length daily - 1]))) \<and>
   snd (snd (clean_boc_policy_rate iso_date plain_decimal boc_example)) =
     [\<lparr>date = (2024, 1, 1), policy_rate_pct = 5\<rparr>, \<lparr>date = (2024, 1, 3), policy_rate_pct = 21 / 4\<rparr>]"
proof -
  have ex: "snd (snd (clean_boc_policy_rate iso_date plain_decimal boc_example)) =
     [\<lparr>date = (2024, 1, 1), policy_rate_pct = 5\<rparr>, \<lparr>date = (2024, 1, 3), policy_rate_pct = 21 / 4\<rparr>]"
    by (simp add: clean_boc_policy_rate_def Let_def boc_daily_example boc_changes_def shift1_def)
  have len: "length (boc_changes daily) =
        (if daily = [] then 0
         else 1 + length (filter (\<lambda>i. policy_rate_pct (daily ! i) \<noteq> policy_rate_pct (daily ! Suc i))
                            [0..<length daily - 1]))" for daily
    using boc_changes_length [of daily] by (simp add: boc_changes_def shift1_def)
  show ?thesis
    using ex len boc_changes_index sorted_boc_daily
    by (simp add: clean_boc_policy_rate_def Let_def)
qed

text \<open>The statement of C2 at the two rows 2024-01-15 and 2024-03-10.\<close>

theorem boc_daily_sorted_and_changes_witness:
  "fst (clean_boc_policy_rate iso_date plain_decimal boc_gap_example) =
     [\<lparr>date = (2024, 1, 15), policy_rate_pct = 5\<rparr>, \<lparr>date = (2024, 3, 10), policy_rate_pct = 21 / 4\<rparr>] \<and>
   length (snd (snd (clean_boc_policy_rate iso_date plain_decimal boc_gap_example))) = 2"
proof -
  have d: "fst (clean_boc_policy_rate iso_date plain_decimal boc_gap_example) =
     [\<lparr>date = (2024, 1, 15), policy_rate_pct = 5\<rparr>, \<lparr>date = (2024, 3, 10), policy_rate_pct = 21 / 4\<rparr>]"
    by (simp only: clean_boc_policy_rate_def Let_def boc_daily_gap_example fst_conv)
  show ?thesis
    using boc_daily_sorted_and_changes [of iso_date plain_decimal boc_gap_example] d
    by (auto split: prod.splits)
qed

text \<open>
  Claim C8 as stated fails: the rate \<^verbatim>\<open>5.00\<close> passes the numeric test and parses as 5,
  yet its row is dropped because the date of the row does not parse.
\<close>

theorem boc_retains_rate_only_counterexample:
  "rate_is_numeric ''5.00'' \<and> plain_decimal ''5.00'' = Some 5 \<and>
   fst (clean_boc_policy_rate iso_date plain_decimal [(''not a date'', ''5.00'')]) = []"
  by (simp add: clean_boc_policy_rate_def boc_daily_def parse_defs)

text \<open>
  Claim C8, amended. The daily series holds, with multiplicity, exactly the input rows
  whose rate passes the digit test and whose date and rate both convert. The digit test
  accepts exactly the texts with at most one decimal point, no character other than
  digits and that point, and at least one digit; a bare point and every text that starts
  with a minus sign are rejected.
\<close>

theorem boc_daily_retained_rows:
  "mset (fst (clean_boc_policy_rate td tn df)) =
     image_mset (\<lambda>(ds, x). \<lparr>date = the (td ds), policy_rate_pct = the (tn x)\<rparr>)
       (filter_mset (\<lambda>(ds, x). rate_is_numeric x \<and> td ds \<noteq> None \<and> tn x \<noteq> None) (mset df)) \<and>
   rate_is_numeric x =
     (count_list x (CHR ''.'') \<le> 1 \<and> list_all (\<lambda>c. c = CHR ''.'' \<or> isdigit_char c) x \<and>
      list_ex isdigit_char x) \<and>
   \<not> rate_is_numeric ''.'' \<and> \<not> rate_is_numeric (CHR ''-'' # x)"
proof -
  have "\<not> rate_is_numeric ''.''" by (simp add: rate_is_numeric_def isdigit_def)
  moreover have "\<not> rate_is_numeric (CHR ''-'' # x)"
    by (simp add: rate_is_numeric_iff isdigit_char_def)
  ultimately show ?thesis
    using rate_is_numeric_iff [of x] mset_boc_daily [of td tn df]
    by (simp add: clean_boc_policy_rate_def Let_def)
qed

text \<open>The statement of C8 at four rows of which only one is retained.\<close>

theorem boc_daily_retained_rows_witness:
  "mset (fst (clean_boc_policy_rate iso_date plain_decimal
      [(''2024-01-02'', ''5.00''), (''2024-01-03'', ''.''), (''n/a'', ''5.00''), (''2024-01-01'', ''-1.5'')])) =
     {#\<lparr>date = (2024, 1, 2), policy_rate_pct = 5\<rparr>#}"
proof -
  have "fst (clean_boc_policy_rate iso_date plain_decimal
      [(''2024-01-02'', ''5.00''), (''2024-01-03'', ''.''), (''n/a'', ''5.00''), (''2024-01-01'', ''-1.5'')]) =
     [\<lparr>date = (2024, 1, 2), policy_rate_pct = 5\<rparr>]"
    by (simp only: clean_boc_policy_rate_def Let_def boc_daily_mixed_example fst_conv)
  then show ?thesis
    using boc_daily_retained_rows [of iso_date plain_decimal
      "[(''2024-01-02'', ''5.00''), (''2024-01-03'', ''.''), (''n/a'', ''5.00''), (''2024-01-01'', ''-1.5'')]"]
    by (simp only: mset.simps)
qed

text \<open>
  Claim C6 as stated fails: with observations on 2024-01-15 and 2024-03-10 only, the row
  of February holds NaN, although the last observation on or before 2024-02-29 is 5.
\<close>

theorem boc_monthly_gap_counterexample:
  "fst (snd (clean_boc_policy_rate iso_date plain_decimal boc_gap_example)) =
     [((2024, 1, 31), Some 5), ((2024, 2, 29), None), ((2024, 3, 31), Some (21 / 4))] \<and>
   last_on_or_before (fst (clean_boc_policy_rate iso_date plain_decimal boc_gap_example)) (2024, 2, 29) = Some 5"
proof -
  have "last_on_or_before [\<lparr>date = (2024, 1, 15), policy_rate_pct = 5\<rparr>,
      \<lparr>date = (2024, 3, 10), policy_rate_pct = 21 / 4\<rparr>] (2024, 2, 29) = Some 5"
    by (simp add: last_on_or_before_def last_opt_def)
  then show ?thesis
    by (simp only: clean_boc_policy_rate_def Let_def boc_daily_gap_example boc_monthly_gap_example
        fst_conv snd_conv simp_thms)
qed

text \<open>
  Claim C6, amended. When the date parser returns calendar dates, the monthly table has
  exactly one row for every month from the month of the earliest daily row to the month of
  the latest one, labelled by the last day of the month. The row of a month with an
  observation holds the last observation of that month, which is the last observation on
  or before the month's end; the row of a month without observation holds NaN.
\<close>

theorem boc_monthly_end_rows:
  assumes td: "\<forall>s d. td s = Some d \<longrightarrow> valid_date d"
  shows "case clean_boc_policy_rate td tn df of (daily, monthly, changes) \<Rightarrow>
     (daily = [] \<longrightarrow> monthly = []) \<and>
     (daily \<noteq> [] \<longrightarrow>
        map fst monthly = map month_end_of_index [Min (months_of daily) ..< Suc (Max (months_of daily))]) \<and>
     distinct (map fst monthly) \<and>
     (\<forall>(d, v) \<in> set monthly.
        v = last_in_month daily (month_index d) \<and>
        (if \<exists>r\<in>set daily. month_index (date r) = month_index d
         then v = last_on_or_before daily d \<and> v \<noteq> None else v = None))"
proof -
  define daily where "daily = boc_daily td tn df"
  have srt: "sorted (map date daily)" by (simp add: daily_def sorted_boc_daily)
  have val: "\<forall>r\<in>set daily. valid_date (date r)"
    unfolding daily_def using td by (rule boc_daily_valid)
  have empty': "boc_monthly_end [] = []"
    by (simp add: boc_monthly_end_def)
  then have empty: "daily = [] \<Longrightarrow> boc_monthly_end daily = []"
    by simp
  have eq: "daily \<noteq> [] \<Longrightarrow> boc_monthly_end daily =
      map (\<lambda>k. (month_end_of_index k, last_in_month daily k))
        [Min (months_of daily) ..< Suc (Max (months_of daily))]"
    unfolding months_of_def by (rule boc_monthly_end_eq)
  have fsts: "daily \<noteq> [] \<Longrightarrow> map fst (boc_monthly_end daily) =
      map month_end_of_index [Min (months_of daily) ..< Suc (Max (months_of daily))]"
    by (simp add: eq o_def)
  have dist: "distinct (map fst (boc_monthly_end daily))"
  proof (cases "daily = []")
    case True
    then show ?thesis by (simp add: empty')
  next
    case False
    have "inj_on month_end_of_index A" for A
      by (rule inj_onI) (rule month_end_of_index_inj)
    then show ?thesis
      using fsts [OF False] by (simp add: distinct_map)
  qed
  have rows: "v = last_in_month daily (month_index d) \<and>
        (if \<exists>r\<in>set daily. month_index (date r) = month_index d
         then v = last_on_or_before daily d \<and> v \<noteq> None else v = None)"
    if "(d, v) \<in> set (boc_monthly_end daily)" for d v
  proof -
    have ne: "daily \<noteq> []" using that empty by auto
    from that obtain k where k: "d = month_end_of_index k" "v = last_in_month daily k"
      unfolding eq [OF ne] by auto
    have mi: "month_index d = k" by (simp add: k month_index_month_end_of_index)
    show ?thesis
    proof (cases "\<exists>r\<in>set daily. month_index (date r) = k")
      case True
      have "last_in_month daily k = last_on_or_before daily (month_end_of_index k)"
        by (rule last_in_month_on_or_before [OF srt val True])
      moreover have "last_in_month daily k \<noteq> None"
        using True by (simp add: last_in_month_None)
      ultimately show ?thesis
        unfolding k month_index_month_end_of_index using True by simp
    next
      case False
      then have "last_in_month daily k = None"
        by (simp add: last_in_month_None)
      then show ?thesis
        unfolding k month_index_month_end_of_index using False by simp
    qed
  qed
  have rows': "\<forall>(d, v) \<in> set (boc_monthly_end daily).
        v = last_in_month daily (month_index d) \<and>
        (if \<exists>r\<in>set daily. month_index (date r) = month_index d
         then v = last_on_or_before daily d \<and> v \<noteq> None else v = None)"
    by (intro ballI, clarify, rule rows)
  show ?thesis
    unfolding clean_boc_policy_rate_def Let_def daily_def [symmetric] prod.case
    using empty fsts dist rows' by blast
qed

text \<open>The statement of C6 at the two rows 2024-01-15 and 2024-03-10, parsed by the ISO parser.\<close>

theorem boc_monthly_end_rows_witness:
  "map fst (fst (snd (clean_boc_policy_rate iso_date plain_decimal boc_gap_example))) =
     [(2024, 1, 31), (2024, 2, 29), (2024, 3, 31)]"
proof -
  let ?D = "[\<lparr>date = (2024, 1, 15), policy_rate_pct = 5\<rparr>, \<lparr>date = (2024, 3, 10), policy_rate_pct = 21 / 4\<rparr>]"
  have v: "\<forall>s d. iso_date s = Some d \<longrightarrow> valid_date d"
    using iso_date_valid by blast
  have c: "clean_boc_policy_rate iso_date plain_decimal boc_gap_example =
      (?D, boc_monthly_end ?D, boc_changes ?D)"
    by (simp only: clean_boc_policy_rate_def Let_def boc_daily_gap_example)
  note T = boc_monthly_end_rows [OF v, of plain_decimal boc_gap_example, unfolded c prod.case]
  have ne: "?D \<noteq> []" by simp
  have m: "months_of ?D = {24288, 24290}"
    by (simp add: months_of_def month_index_def)
  have u: "[24288..<Suc 24290] = [24288, 24289, 24290]"
    by (simp add: upt_rec)
  from T ne have "map fst (boc_monthly_end ?D) =
      map month_end_of_index [Min (months_of ?D) ..< Suc (Max (months_of ?D))]"
    by blast
  also have "\<dots> = [(2024, 1, 31), (2024, 2, 29), (2024, 3, 31)]"
    unfolding m by (simp add: u month_end_of_index_def days_in_month_def is_leap_def del: upt_Suc)
  finally show ?thesis
    by (simp only: c fst_conv snd_conv)
qed

section \<open>Theorems: housing starts\<close>

lemma mset_dropna_starts:
  "mset (dropna_starts rs) =
     image_mset (\<lambda>(lbl, c). (lbl, the c)) (filter_mset (\<lambda>(lbl, c). c \<noteq> None) (mset rs))"
  by (induction rs rule: dropna_starts.induct) auto

lemma length_dropna_starts:
  "length (dropna_starts rs) = length (filter (\<lambda>(lbl, c). c \<noteq> None) rs)"
  by (induction rs rule: dropna_starts.induct) auto

lemma mset_starts_monthly:
  "mset (starts_monthly td tn raw) =
     image_mset (\<lambda>(lbl, c). (map_option month_end (td (lbl @ ''-01'')), tn (the c)))
       (filter_mset (\<lambda>(lbl, c). c \<noteq> None)
          (mset (melt_starts (map is_alberta (geography raw)) (month_columns raw))))"
  unfolding starts_monthly_def Let_def mset_sort mset_map mset_dropna_starts
  by (simp add: image_mset.compositionality o_def case_prod_unfold)

lemma length_starts_monthly:
  "length (starts_monthly td tn raw) =
     length (filter (\<lambda>(lbl, c). c \<noteq> None)
        (melt_starts (map is_alberta (geography raw)) (month_columns raw)))"
  by (simp add: starts_monthly_def Let_def length_dropna_starts)

lemma clean_housing_starts_Inr:
  assumes "clean_housing_starts td tn raw = Inr (monthly, quarterly)"
  shows "monthly = starts_monthly td tn raw" and "resample_q_mean monthly = Inr quarterly"
    and "list_ex is_alberta (geography raw)"
  using assms
  by (auto simp: clean_housing_starts_def Let_def split: if_splits sum.splits)

lemma quarter_index_quarter_end_of_index: "quarter_index (quarter_end_of_index q) = q"
  by (simp add: quarter_index_def quarter_end_of_index_def month_index_month_end_of_index)

lemma quarter_end_of_index_inj: "quarter_end_of_index j = quarter_end_of_index k \<Longrightarrow> j = k"
  by (metis quarter_index_quarter_end_of_index)

lemma resample_q_mean_eq:
  assumes "resample_q_mean rows = Inr quarterly"
  shows "(dated_rows rows = [] \<longrightarrow> quarterly = []) \<and>
         (dated_rows rows \<noteq> [] \<longrightarrow>
            quarterly = map (\<lambda>q. (quarter_end_of_index q, mean_opt (quarter_values rows q)))
              [Min (quarters_of rows) ..< Suc (Max (quarters_of rows))])"
proof (cases "rows = []")
  case True
  then show ?thesis using assms by (simp add: resample_q_mean_def)
next
  case False
  show ?thesis
  proof (cases "dated_rows rows = []")
    case True
    then show ?thesis using assms False by (simp add: resample_q_mean_def)
  next
    case ne: False
    then have "map (\<lambda>(d, v). quarter_index d) (dated_rows rows) \<noteq> []" by simp
    then show ?thesis
      using assms False ne
      by (simp add: resample_q_mean_def Let_def min_list_nat_Min max_list_nat_Max quarters_of_def)
  qed
qed

lemmas month_defs = month_of_abbrev_def mon_yy_dd_date_def lower_def lower_char_def char_of_def bit_Suc_0_iff strip_def
  isspace_char_def is_alberta_def select_rows_def melt_starts_def month_end_def nat_last_key_def

lemma starts_monthly_q1_example:
  "starts_monthly mon_yy_dd_date plain_decimal starts_q1_example =
     [(Some (2024, 1, 31), Some 28000), (Some (2024, 2, 29), Some 30000), (Some (2024, 3, 31), Some 31000)]"
  by (simp add: starts_monthly_def starts_q1_example_def month_defs parse_defs)

lemma starts_monthly_gap_example:
  "starts_monthly mon_yy_dd_date plain_decimal starts_gap_example =
     [(Some (2024, 1, 31), Some 28000), (Some (2024, 7, 31), Some 31000)]"
  by (simp add: starts_monthly_def starts_gap_example_def month_defs parse_defs)

lemma starts_monthly_text_example:
  "starts_monthly mon_yy_dd_date plain_decimal starts_text_example =
     [(Some (2024, 1, 31), Some 28000), (Some (2024, 2, 29), None)]"
  by (simp add: starts_monthly_def starts_text_example_def month_defs parse_defs)

lemmas resample_defs = resample_q_mean_def quarter_values_def mean_opt_def min_list_nat_def max_list_nat_def
  quarter_index_def month_index_def quarter_end_of_index_def month_end_of_index_def days_in_month_def
  is_leap_def upt_rec

lemma resample_q1_example:
  "resample_q_mean [(Some (2024, 1, 31), Some 28000), (Some (2024, 2, 29), Some 30000), (Some (2024, 3, 31), Some 31000)]
     = Inr [((2024, 3, 31), Some (89000 / 3))]"
  by (simp add: resample_defs)

lemma resample_gap_example:
  "resample_q_mean [(Some (2024, 1, 31), Some 28000), (Some (2024, 7, 31), Some 31000)]
     = Inr [((2024, 3, 31), Some 28000), ((2024, 6, 30), None), ((2024, 9, 30), Some 31000)]"
  by (simp add: resample_defs)

lemma resample_text_example:
  "resample_q_mean [(Some (2024, 1, 31), Some 28000), (Some (2024, 2, 29), None)]
     = Inr [((2024, 3, 31), Some 28000)]"
  by (simp add: resample_defs)

lemma clean_housing_starts_q1_example:
  "clean_housing_starts mon_yy_dd_date plain_decimal starts_q1_example =
     Inr ([(Some (2024, 1, 31), Some 28000), (Some (2024, 2, 29), Some 30000), (Some (2024, 3, 31), Some 31000)],
          [((2024, 3, 31), Some (89000 / 3))])"
proof -
  have "list_ex is_alberta (geography starts_q1_example)"
    by (simp add: starts_q1_example_def month_defs)
  then show ?thesis
    by (simp only: clean_housing_starts_def Let_def starts_monthly_q1_example resample_q1_example
        not_True_eq_False if_False sum.case)
qed

lemma clean_housing_starts_gap_example:
  "clean_housing_starts mon_yy_dd_date plain_decimal starts_gap_example =
     Inr ([(Some (2024, 1, 31), Some 28000), (Some (2024, 7, 31), Some 31000)],
          [((2024, 3, 31), Some 28000), ((2024, 6, 30), None), ((2024, 9, 30), Some 31000)])"
proof -
  have "list_ex is_alberta (geography starts_gap_example)"
    by (simp add: starts_gap_example_def month_defs)
  then show ?thesis
    by (simp only: clean_housing_starts_def Let_def starts_monthly_gap_example resample_gap_example
        not_True_eq_False if_False sum.case)
qed

lemma clean_housing_starts_text_example:
  "clean_housing_starts mon_yy_dd_date plain_decimal starts_text_example =
     Inr ([(Some (2024, 1, 31), Some 28000), (Some (2024, 2, 29), None)],
          [((2024, 3, 31), Some 28000)])"
proof -
  have "list_ex is_alberta (geography starts_text_example)"
    by (simp add: starts_text_example_def month_defs)
  then show ?thesis
    by (simp only: clean_housing_starts_def Let_def starts_monthly_text_example resample_text_example
        not_True_eq_False if_False sum.case)
qed

subsection \<open>The claims about housing starts\<close>

text \<open>
  Claim C9 as stated fails: the value \<^verbatim>\<open>x\<close> of Feb-24 fails numeric coercion, and its
  pair stays in the monthly output, with NaN as value. Only the pair of Mar-24, whose cell
  is empty in the input, is dropped.
\<close>

theorem starts_unparseable_kept_counterexample:
  "plain_decimal ''x'' = None \<and>
   clean_housing_starts mon_yy_dd_date plain_decimal starts_text_example =
     Inr ([(Some (2024, 1, 31), Some 28000), (Some (2024, 2, 29), None)], [((2024, 3, 31), Some 28000)])"
proof -
  have "plain_decimal ''x'' = None" by (simp add: parse_defs)
  then show ?thesis
    by (simp only: clean_housing_starts_text_example simp_thms)
qed

text \<open>
  Claim C9, amended. The monthly output holds, with multiplicity, exactly the
  (month-label, value) pairs of the Alberta rows whose cell is not empty in the input:
  a pair with an empty cell is dropped, every other pair is retained, with the coerced
  number as value when coercion succeeds and with NaN when it fails.
\<close>

theorem starts_monthly_rows:
  assumes "clean_housing_starts td tn raw = Inr (monthly, quarterly)"
  shows "mset monthly =
     image_mset (\<lambda>(lbl, c). (map_option month_end (td (lbl @ ''-01'')), tn (the c)))
       (filter_mset (\<lambda>(lbl, c). c \<noteq> None)
          (mset (melt_starts (map is_alberta (geography raw)) (month_columns raw)))) \<and>
     length monthly =
       length (filter (\<lambda>(lbl, c). c \<noteq> None)
          (melt_starts (map is_alberta (geography raw)) (month_columns raw)))"
  using clean_housing_starts_Inr(1) [OF assms] mset_starts_monthly [of td tn raw]
    length_starts_monthly [of td tn raw]
  by simp

text \<open>The statement of C9 at the frame with the cells \<^verbatim>\<open>28000\<close>, \<^verbatim>\<open>x\<close> and an empty cell.\<close>

theorem starts_monthly_rows_witness:
  "mset [(Some (2024, 1, 31), Some 28000), (Some (2024, 2, 29), None :: num)] =
     image_mset (\<lambda>(lbl, c). (map_option month_end (mon_yy_dd_date (lbl @ ''-01'')), plain_decimal (the c)))
       (filter_mset (\<lambda>(lbl, c). c \<noteq> None)
          (mset (melt_starts (map is_alberta (geography starts_text_example))
             (month_columns starts_text_example)))) \<and>
   length (filter (\<lambda>(lbl, c). c \<noteq> None)
          (melt_starts (map is_alberta (geography starts_text_example))
             (month_columns starts_text_example))) = 2"
  using starts_monthly_rows [OF clean_housing_starts_text_example]
  by simp

text \<open>
  Claim C3 as stated fails: with monthly rows in January and July 2024 only, the quarterly
  output has a row for the second quarter, which has no contributing monthly value.
\<close>

theorem starts_empty_quarter_counterexample:
  "clean_housing_starts mon_yy_dd_date plain_decimal starts_gap_example =
     Inr ([(Some (2024, 1, 31), Some 28000), (Some (2024, 7, 31), Some 31000)],
          [((2024, 3, 31), Some 28000), ((2024, 6, 30), None), ((2024, 9, 30), Some 31000)]) \<and>
   quarter_values [(Some (2024, 1, 31), Some 28000), (Some (2024, 7, 31), Some 31000)]
     (quarter_index (2024, 6, 30)) = []"
proof -
  have "quarter_values [(Some (2024, 1, 31), Some 28000), (Some (2024, 7, 31), Some 31000)]
     (quarter_index (2024, 6, 30)) = []"
    by (simp add: quarter_values_def quarter_index_def month_index_def)
  then show ?thesis
    by (simp only: clean_housing_starts_gap_example simp_thms)
qed

text \<open>
  Claim C3, amended. On success the quarterly output has exactly one row for every quarter
  from the quarter of the earliest monthly date to the quarter of the latest one. The row
  of a quarter holds the arithmetic mean (sum divided by count) of exactly the numbers of the
  monthly rows whose date falls in that quarter, and NaN when there is none. The monthly
  values 28000, 30000 and 31000 of the first quarter of 2024 give the mean 89000/3, which
  is 29666.67 to two decimals.
\<close>

theorem starts_quarterly_rows:
  "(clean_housing_starts td tn raw = Inr (monthly, quarterly) \<longrightarrow>
      (dated_rows monthly = [] \<longrightarrow> quarterly = []) \<and>
      (dated_rows monthly \<noteq> [] \<longrightarrow>
         map fst quarterly =
           map quarter_end_of_index [Min (quarters_of monthly) ..< Suc (Max (quarters_of monthly))]) \<and>
      distinct (map fst quarterly) \<and>
      (\<forall>(d, v) \<in> set quarterly.
         (quarter_values monthly (quarter_index d) = [] \<longrightarrow> v = None) \<and>
         (quarter_values monthly (quarter_index d) \<noteq> [] \<longrightarrow>
            v = Some (sum_list (quarter_values monthly (quarter_index d)) /
                      of_nat (length (quarter_values monthly (quarter_index d))))))) \<and>
   clean_housing_starts mon_yy_dd_date plain_decimal starts_q1_example =
     Inr ([(Some (2024, 1, 31), Some 28000), (Some (2024, 2, 29), Some 30000), (Some (2024, 3, 31), Some 31000)],
          [((2024, 3, 31), Some (89000 / 3))]) \<and>
   \<bar>89000 / 3 - 29666.67\<bar> < (0.005 :: rat)"
proof -
  have general: "(dated_rows monthly = [] \<longrightarrow> quarterly = []) \<and>
      (dated_rows monthly \<noteq> [] \<longrightarrow>
         map fst quarterly =
           map quarter_end_of_index [Min (quarters_of monthly) ..< Suc (Max (quarters_of monthly))]) \<and>
      distinct (map fst quarterly) \<and>
      (\<forall>(d, v) \<in> set quarterly.
         (quarter_values monthly (quarter_index d) = [] \<longrightarrow> v = None) \<and>
         (quarter_values monthly (quarter_index d) \<noteq> [] \<longrightarrow>
            v = Some (sum_list (quarter_values monthly (quarter_index d)) /
                      of_nat (length (quarter_values monthly (quarter_index d))))))"
    if ok: "clean_housing_starts td tn raw = Inr (monthly, quarterly)"
  proof -
    have rs: "resample_q_mean monthly = Inr quarterly"
      by (rule clean_housing_starts_Inr(2) [OF ok])
    note eq = resample_q_mean_eq [OF rs]
    show ?thesis
    proof (cases "dated_rows monthly = []")
      case True
      then show ?thesis using eq by simp
    next
      case False
      then have q: "quarterly = map (\<lambda>q. (quarter_end_of_index q, mean_opt (quarter_values monthly q)))
              [Min (quarters_of monthly) ..< Suc (Max (quarters_of monthly))]"
        using eq by blast
      have fsts: "map fst quarterly =
           map quarter_end_of_index [Min (quarters_of monthly) ..< Suc (Max (quarters_of monthly))]"
        unfolding q by (simp add: o_def)
      have "inj_on quarter_end_of_index A" for A
        by (rule inj_onI) (rule quarter_end_of_index_inj)
      then have dist: "distinct (map fst quarterly)"
        unfolding fsts by (simp add: distinct_map)
      have rows: "(quarter_values monthly (quarter_index d) = [] \<longrightarrow> v = None) \<and>
         (quarter_values monthly (quarter_index d) \<noteq> [] \<longrightarrow>
            v = Some (sum_list (quarter_values monthly (quarter_index d)) /
                      of_nat (length (quarter_values monthly (quarter_index d)))))"
        if "(d, v) \<in> set quarterly" for d v
      proof -
        from that obtain k where "d = quarter_end_of_index k" "v = mean_opt (quarter_values monthly k)"
          unfolding q by auto
        then show ?thesis
          by (simp add: quarter_index_quarter_end_of_index mean_opt_def)
      qed
      have rows': "\<forall>(d, v) \<in> set quarterly.
         (quarter_values monthly (quarter_index d) = [] \<longrightarrow> v = None) \<and>
         (quarter_values monthly (quarter_index d) \<noteq> [] \<longrightarrow>
            v = Some (sum_list (quarter_values monthly (quarter_index d)) /
                      of_nat (length (quarter_values monthly (quarter_index d)))))"
        by (intro ballI, clarify, rule rows)
      show ?thesis
        using False fsts dist rows' by blast
    qed
  qed
  have num: "\<bar>89000 / 3 - 29666.67\<bar> < (0.005 :: rat)" by simp
  show ?thesis
    using general clean_housing_starts_q1_example num by blast
qed

text \<open>The statement of C3 at the frame with values in January and July 2024.\<close>

theorem starts_quarterly_rows_witness:
  "map fst [((2024, 3, 31), Some 28000), ((2024, 6, 30), None :: num), ((2024, 9, 30), Some 31000)] =
     map quarter_end_of_index
       [Min (quarters_of [(Some (2024, 1, 31), Some 28000), (Some (2024, 7, 31), Some 31000)]) ..<
        Suc (Max (quarters_of [(Some (2024, 1, 31), Some 28000), (Some (2024, 7, 31), Some 31000)]))]"
proof -
  note T = starts_quarterly_rows [of mon_yy_dd_date plain_decimal starts_gap_example
      "[(Some (2024, 1, 31), Some 28000), (Some (2024, 7, 31), Some 31000)]"
      "[((2024, 3, 31), Some 28000), ((2024, 6, 30), None), ((2024, 9, 30), Some 31000)]"]
  have ne: "dated_rows [(Some (2024, 1, 31), Some 28000 :: num), (Some (2024, 7, 31), Some 31000)] \<noteq> []"
    by simp
  from T clean_housing_starts_gap_example ne show ?thesis
    by blast
qed

section \<open>Theorems: international migration\<close>

lemma traverse_Inr:
  "traverse f xs = Inr ys \<Longrightarrow> list_all2 (\<lambda>x y. f x = Inr y) xs ys"
proof (induction xs arbitrary: ys)
  case Nil
  then show ?case by simp
next
  case (Cons x xs)
  then show ?case by (auto split: sum.splits)
qed

lemma insort_key_map:
  assumes "\<And>x. k x = k' (f x)"
  shows "map f (insort_key k x xs) = insort_key k' (f x) (map f xs)"
  by (induction xs) (auto simp: assms)

lemma sort_key_map:
  assumes "\<And>x. k x = k' (f x)"
  shows "map f (sort_key k xs) = sort_key k' (map f xs)"
proof (induction xs)
  case Nil
  then show ?case by simp
next
  case (Cons x xs)
  have "map f (insort_key k x (sort_key k xs)) = insort_key k' (f x) (map f (sort_key k xs))"
    using assms by (rule insort_key_map)
  then show ?case using Cons by simp
qed

lemma clean_mig_Inr:
  assumes "clean_international_migration period tn df = Inr (wide, long)"
  obtains rows where
    "list_all2 (\<lambda>r row. \<exists>q. period (sub_quarter (strip (reference_period r))) = Some q \<and>
        row = mig_wide_row tn r q) df rows"
    "wide = sort_key quarter rows"
    "long = sort_key (\<lambda>(geo, q, component, v). (q, component))
              (map (\<lambda>(q, component, v). (''Alberta'', q, component, v)) (melt_wide wide))"
proof -
  from assms obtain rows where
    t: "traverse (\<lambda>r. case period (sub_quarter (strip (reference_period r))) of
                            None \<Rightarrow> Inl ValueError
                          | Some q \<Rightarrow> Inr (mig_wide_row tn r q)) df = Inr rows"
    and w: "wide = sort_key quarter rows"
    and l: "long = sort_key (\<lambda>(geo, q, component, v). (q, component))
              (map (\<lambda>(q, component, v). (''Alberta'', q, component, v)) (melt_wide wide))"
    by (auto simp: clean_international_migration_def Let_def split: sum.splits)
  have "list_all2 (\<lambda>r row. \<exists>q. period (sub_quarter (strip (reference_period r))) = Some q \<and>
        row = mig_wide_row tn r q) df rows"
    using traverse_Inr [OF t]
    by (rule list_all2_mono) (auto split: option.splits)
  then show ?thesis using w l that by blast
qed

lemma mig_wide_row_total:
  "total_pressure (mig_wide_row tn r q) =
     nan_add (immigrants (mig_wide_row tn r q)) (net_non_permanent_residents (mig_wide_row tn r q))"
  by (simp add: mig_wide_row_def Let_def)

lemma wide_total_pressure:
  assumes "clean_international_migration period tn df = Inr (wide, long)" and "r \<in> set wide"
  shows "total_pressure r = nan_add (immigrants r) (net_non_permanent_residents r)"
proof -
  from assms(1) obtain rows where
    rel: "list_all2 (\<lambda>r row. \<exists>q. period (sub_quarter (strip (reference_period r))) = Some q \<and>
        row = mig_wide_row tn r q) df rows"
    and w: "wide = sort_key quarter rows"
    by (rule clean_mig_Inr)
  from assms(2) w have "r \<in> set rows" by simp
  then obtain raw q where "r = mig_wide_row tn raw q"
    using rel by (auto simp: in_set_conv_nth list_all2_conv_all_nth)
  then show ?thesis by (simp add: mig_wide_row_total)
qed

lemma wide_without_net_emigration:
  assumes "clean_international_migration period tn df = Inr (wide, long)"
  shows "map without_net_emigration wide =
     sort_key fst (map (mig_view period tn)
       (map (\<lambda>r. (reference_period r, immigrants_cell r, net_non_permanent_residents_cell r)) df))"
proof -
  from assms obtain rows where
    rel: "list_all2 (\<lambda>r row. \<exists>q. period (sub_quarter (strip (reference_period r))) = Some q \<and>
        row = mig_wide_row tn r q) df rows"
    and w: "wide = sort_key quarter rows"
    by (rule clean_mig_Inr)
  have "map without_net_emigration rows =
      map (mig_view period tn)
       (map (\<lambda>r. (reference_period r, immigrants_cell r, net_non_permanent_residents_cell r)) df)"
    using rel
    by (induction df rows rule: list_all2_induct)
       (auto simp: without_net_emigration_def mig_view_def mig_wide_row_def Let_def)
  moreover have "map without_net_emigration (sort_key quarter rows) =
      sort_key fst (map without_net_emigration rows)"
    by (rule sort_key_map) (simp add: without_net_emigration_def)
  ultimately show ?thesis by (simp add: w)
qed

subsection \<open>Pivoting the long table\<close>

lemma mset_eq_distinct_iff: "mset xs = mset ys \<Longrightarrow> distinct xs = distinct ys"
  by (metis distinct_count_atmost_1 mset_eq_setD)

lemma map_key_melt_wide:
  "map (\<lambda>(i, c, v). (i, c)) (melt_wide W) =
     map (\<lambda>r. (quarter r, ''immigrants'')) W @
     map (\<lambda>r. (quarter r, ''net_non_permanent_residents'')) W @
     map (\<lambda>r. (quarter r, ''net_emigration'')) W @
     map (\<lambda>r. (quarter r, ''total_pressure'')) W"
  by (simp add: melt_wide_def mig_components_def o_def)

lemma distinct_map_tag: "distinct (map (\<lambda>x. (f x, n)) xs) = distinct (map f xs)"
  by (induction xs) auto

lemma distinct_keys_melt_wide:
  "distinct (map (\<lambda>(i, c, v). (i, c)) (melt_wide W)) = distinct (map quarter W)"
  unfolding map_key_melt_wide
  by (auto simp: distinct_map_tag)

lemma set_melt_wide:
  "set (melt_wide W) = (\<Union>(name, sel) \<in> set mig_components. (\<lambda>r. (quarter r, name, sel r)) ` set W)"
  by (auto simp: melt_wide_def)

lemma mset_long_triples:
  assumes "long = sort_key (\<lambda>(geo, q, component, v). (q, component))
              (map (\<lambda>(q, component, v). (''Alberta'', q, component, v)) (melt_wide W))"
  shows "mset (long_triples long) = mset (melt_wide W)"
proof -
  have "mset (long_triples long) =
      image_mset (\<lambda>(geo, q, component, v). (q, component, v))
        (image_mset (\<lambda>(q, component, v). (''Alberta'', q, component, v)) (mset (melt_wide W)))"
    unfolding long_triples_def assms by (simp only: mset_map mset_sort)
  also have "\<dots> = mset (melt_wide W)"
    by (simp add: image_mset.compositionality o_def case_prod_unfold)
  finally show ?thesis .
qed

lemma map_of_tabulate:
  "name \<in> set ks \<Longrightarrow> map_of (map (\<lambda>c. (c, g c)) ks) name = Some (g name)"
  by (induction ks) auto

lemma zip5_map:
  "map F (zip (map q W) (zip (map a W) (zip (map b W) (zip (map c W) (map d W))))) =
     map (\<lambda>r. F (q r, a r, b r, c r, d r)) W"
  by (induction W) auto

lemma set_melt_wide_Un:
  "set (melt_wide W) =
     (\<lambda>r. (quarter r, ''immigrants'', immigrants r)) ` set W \<union>
     (\<lambda>r. (quarter r, ''net_non_permanent_residents'', net_non_permanent_residents r)) ` set W \<union>
     (\<lambda>r. (quarter r, ''net_emigration'', net_emigration r)) ` set W \<union>
     (\<lambda>r. (quarter r, ''total_pressure'', total_pressure r)) ` set W"
  by (simp add: melt_wide_def mig_components_def Un_assoc)

lemma index_set_melt_wide: "(\<lambda>(i, c, v). i) ` set (melt_wide W) = quarter ` set W"
  by (simp add: set_melt_wide_Un image_Un image_image)

lemma column_set_melt_wide:
  "W \<noteq> [] \<Longrightarrow> (\<lambda>(i, c, v). c) ` set (melt_wide W) =
     {''immigrants'', ''net_non_permanent_residents'', ''net_emigration'', ''total_pressure''}"
  by (simp add: set_melt_wide_Un image_Un image_image image_constant_conv insert_commute)

lemma melt_wide_member:
  "r \<in> set W \<Longrightarrow> (name, sel) \<in> set mig_components \<Longrightarrow> (quarter r, name, sel r) \<in> set (melt_wide W)"
  unfolding set_melt_wide by blast

lemma pivot_melt_wide:
  assumes srt: "sorted (map quarter W)" and dist: "distinct (map quarter W)"
    and L: "mset L = mset (melt_wide W)"
  shows "\<exists>p. pivot L = Inr p \<and> wide_of_pivot p = Inr W"
proof (cases "W = []")
  case True
  then have "L = []" using L by (simp add: melt_wide_def mig_components_def)
  then have "pivot L = Inr ([], [])" by (simp add: pivot_def)
  moreover have "wide_of_pivot ([], []) = Inr W" using True by (simp add: wide_of_pivot_def)
  ultimately show ?thesis by blast
next
  case False
  define keys where "keys = map (\<lambda>(i, c, v). (i, c)) L"
  define index where "index = sort (remdups (map fst keys))"
  define columns where "columns = sort (remdups (map snd keys))"
  define cell where "cell = (\<lambda>i c. case map_of (map (\<lambda>(i, c, v). ((i, c), v)) L) (i, c) of
                                  None \<Rightarrow> None | Some v \<Rightarrow> v)"
  define cols where "cols = map (\<lambda>c. (c, map (\<lambda>i. cell i c) index)) columns"
  have setL: "set L = set (melt_wide W)" using L by (rule mset_eq_setD)
  have "mset keys = mset (map (\<lambda>(i, c, v). (i, c)) (melt_wide W))"
    unfolding keys_def using L by (simp only: mset_map)
  then have dk: "distinct keys"
    using mset_eq_distinct_iff distinct_keys_melt_wide dist by blast
  have piv: "pivot L = Inr (index, cols)"
    using dk unfolding pivot_def Let_def keys_def [symmetric] index_def [symmetric]
      columns_def [symmetric] cell_def [symmetric] cols_def [symmetric]
    by simp
  have "set index = quarter ` set W"
    unfolding index_def keys_def
    using index_set_melt_wide [of W] by (simp add: setL image_image case_prod_unfold)
  moreover have "sorted index" "distinct index"
    by (simp_all add: index_def)
  ultimately have index: "index = map quarter W"
    using srt dist by (intro sorted_distinct_set_unique) simp_all
  have names: "set columns =
      {''immigrants'', ''net_non_permanent_residents'', ''net_emigration'', ''total_pressure''}"
    unfolding columns_def keys_def
    using column_set_melt_wide [OF False] by (simp add: setL image_image case_prod_unfold)
  have look: "cell (quarter r) name = sel r" if "r \<in> set W" "(name, sel) \<in> set mig_components"
    for r name sel
  proof -
    have "distinct (map fst (map (\<lambda>(i, c, v). ((i, c), v)) L))"
      using dk by (simp add: keys_def o_def case_prod_unfold)
    moreover have "((quarter r, name), sel r) \<in> set (map (\<lambda>(i, c, v). ((i, c), v)) L)"
      using melt_wide_member [OF that] unfolding set_map setL by (rule rev_image_eqI) simp
    ultimately have "map_of (map (\<lambda>(i, c, v). ((i, c), v)) L) (quarter r, name) = Some (sel r)"
      by (rule map_of_is_SomeI)
    then show ?thesis by (simp add: cell_def)
  qed
  have col: "column cols name = Inr (map (\<lambda>r. sel r) W)"
    if "(name, sel) \<in> set mig_components" for name sel
  proof -
    have "name \<in> set columns"
      using that unfolding names by (auto simp: mig_components_def)
    then have "map_of cols name = Some (map (\<lambda>i. cell i name) index)"
      unfolding cols_def by (rule map_of_tabulate)
    moreover have "map (\<lambda>i. cell i name) index = map (\<lambda>r. sel r) W"
      unfolding index using look [OF _ that] by simp
    ultimately show ?thesis by (simp add: column_def)
  qed
  have c1: "column cols ''immigrants'' = Inr (map immigrants W)"
    and c2: "column cols ''net_non_permanent_residents'' = Inr (map net_non_permanent_residents W)"
    and c3: "column cols ''net_emigration'' = Inr (map net_emigration W)"
    and c4: "column cols ''total_pressure'' = Inr (map total_pressure W)"
    by (rule col, simp add: mig_components_def)+
  have "index \<noteq> []" using False by (simp add: index)
  then have "wide_of_pivot (index, cols) = Inr W"
    unfolding wide_of_pivot_def prod.case c1 c2 c3 c4 index
    by (simp add: zip5_map map_idI)
  then show ?thesis using piv by blast
qed

lemma pivot_duplicate:
  assumes "\<not> distinct (map quarter W)" and L: "mset L = mset (melt_wide W)"
  shows "pivot L = Inl ValueError"
proof -
  have "mset (map (\<lambda>(i, c, v). (i, c)) L) = mset (map (\<lambda>(i, c, v). (i, c)) (melt_wide W))"
    using L by (simp only: mset_map)
  then have "\<not> distinct (map (\<lambda>(i, c, v). (i, c)) L)"
    using mset_eq_distinct_iff distinct_keys_melt_wide assms(1) by blast
  then show ?thesis by (simp add: pivot_def Let_def)
qed

subsection \<open>The claims about international migration\<close>

lemmas mig_defs = clean_international_migration_def mig_wide_row_def num_cell_def replace_char_def
  match_quarter_def strip_def isspace_char_def yyyy_q_period_def melt_wide_def mig_components_def
  nan_add_def

lemma mig_example_result:
  "clean_international_migration yyyy_q_period plain_decimal mig_example =
   Inr ([\<lparr>quarter = (2024, 3, 31), immigrants = Some 1000, net_non_permanent_residents = Some 2500,
          net_emigration = Some 200, total_pressure = Some 3500\<rparr>,
         \<lparr>quarter = (2024, 6, 30), immigrants = Some 1500, net_non_permanent_residents = None,
          net_emigration = Some 300, total_pressure = None\<rparr>],
        [(''Alberta'', (2024, 3, 31), ''immigrants'', Some 1000),
         (''Alberta'', (2024, 3, 31), ''net_emigration'', Some 200),
         (''Alberta'', (2024, 3, 31), ''net_non_permanent_residents'', Some 2500),
         (''Alberta'', (2024, 3, 31), ''total_pressure'', Some 3500),
         (''Alberta'', (2024, 6, 30), ''immigrants'', Some 1500),
         (''Alberta'', (2024, 6, 30), ''net_emigration'', Some 300),
         (''Alberta'', (2024, 6, 30), ''net_non_permanent_residents'', None),
         (''Alberta'', (2024, 6, 30), ''total_pressure'', None)])"
  by (simp add: mig_example_def mig_defs parse_defs)

lemma mig_duplicate_example_result:
  "clean_international_migration yyyy_q_period plain_decimal mig_duplicate_example =
   Inr ([\<lparr>quarter = (2024, 3, 31), immigrants = Some 1000, net_non_permanent_residents = Some 2500,
          net_emigration = Some 200, total_pressure = Some 3500\<rparr>,
         \<lparr>quarter = (2024, 3, 31), immigrants = Some 1100, net_non_permanent_residents = Some 2600,
          net_emigration = Some 210, total_pressure = Some 3700\<rparr>],
        [(''Alberta'', (2024, 3, 31), ''immigrants'', Some 1000),
         (''Alberta'', (2024, 3, 31), ''immigrants'', Some 1100),
         (''Alberta'', (2024, 3, 31), ''net_emigration'', Some 200),
         (''Alberta'', (2024, 3, 31), ''net_emigration'', Some 210),
         (''Alberta'', (2024, 3, 31), ''net_non_permanent_residents'', Some 2500),
         (''Alberta'', (2024, 3, 31), ''net_non_permanent_residents'', Some 2600),
         (''Alberta'', (2024, 3, 31), ''total_pressure'', Some 3500),
         (''Alberta'', (2024, 3, 31), ''total_pressure'', Some 3700)])"
  by (simp add: mig_duplicate_example_def mig_defs parse_defs)

text \<open>
  Claim C1. In every row of the wide output of the international-migration cleaner,
  total_pressure is immigrants + net_non_permanent_residents when both are present, and
  is absent when either of them is absent. net_emigration does not contribute: two inputs
  that agree on the period label and on the two summed cells of every row give the same
  quarter, immigrants, net_non_permanent_residents and total_pressure columns, whatever
  their net_emigration cells are.
\<close>

theorem total_pressure_is_sum:
  assumes "clean_international_migration period tn df = Inr (wide, long)"
  shows "(\<forall>r\<in>set wide.
            (case (immigrants r, net_non_permanent_residents r) of
               (Some a, Some b) \<Rightarrow> total_pressure r = Some (a + b)
             | _ \<Rightarrow> total_pressure r = None)) \<and>
         (\<forall>df' wide' long'.
            map (\<lambda>r. (reference_period r, immigrants_cell r, net_non_permanent_residents_cell r)) df' =
              map (\<lambda>r. (reference_period r, immigrants_cell r, net_non_permanent_residents_cell r)) df \<and>
            clean_international_migration period tn df' = Inr (wide', long') \<longrightarrow>
            map without_net_emigration wide' = map without_net_emigration wide)"
proof (intro conjI ballI allI impI)
  fix r assume "r \<in> set wide"
  then have "total_pressure r = nan_add (immigrants r) (net_non_permanent_residents r)"
    using assms by (intro wide_total_pressure)
  then show "case (immigrants r, net_non_permanent_residents r) of
               (Some a, Some b) \<Rightarrow> total_pressure r = Some (a + b)
             | _ \<Rightarrow> total_pressure r = None"
    by (simp add: nan_add_def split: option.splits)
next
  fix df' wide' long'
  assume h: "map (\<lambda>r. (reference_period r, immigrants_cell r, net_non_permanent_residents_cell r)) df' =
              map (\<lambda>r. (reference_period r, immigrants_cell r, net_non_permanent_residents_cell r)) df \<and>
            clean_international_migration period tn df' = Inr (wide', long')"
  then show "map without_net_emigration wide' = map without_net_emigration wide"
    using wide_without_net_emigration [OF assms] wide_without_net_emigration [of period tn df' wide' long']
    by simp
qed

text \<open>The statement of C1 at the two rows of the example, one of them with an absent cell.\<close>

theorem total_pressure_is_sum_witness:
  "map total_pressure
     [\<lparr>quarter = (2024, 3, 31), immigrants = Some 1000, net_non_permanent_residents = Some 2500,
        net_emigration = Some 200, total_pressure = Some 3500\<rparr>,
      \<lparr>quarter = (2024, 6, 30), immigrants = Some 1500, net_non_permanent_residents = None,
        net_emigration = Some 300, total_pressure = None\<rparr>] = [Some (1000 + 2500), None]"
  using total_pressure_is_sum [OF mig_example_result]
  by simp

text \<open>
  Claim C4 as stated fails: for two input rows with the same reference period the cleaner
  succeeds with two wide rows of the same quarter, and pivoting the long table raises,
  because each (quarter, component) pair occurs twice.
\<close>

theorem pivot_long_duplicate_counterexample:
  "\<not> isl (clean_international_migration yyyy_q_period plain_decimal mig_duplicate_example) \<and>
   map quarter (fst (projr (clean_international_migration yyyy_q_period plain_decimal mig_duplicate_example))) =
     [(2024, 3, 31), (2024, 3, 31)] \<and>
   pivot_long (snd (projr (clean_international_migration yyyy_q_period plain_decimal mig_duplicate_example))) =
     Inl ValueError"
  unfolding mig_duplicate_example_result
  by (simp add: pivot_long_def pivot_def)

text \<open>
  Claim C4, amended. On success, when the quarters of the wide table are pairwise distinct,
  pivoting the long table on the component column, indexed by quarter, gives back the rows
  of the wide table exactly; when a quarter occurs twice, the pivot raises.
\<close>

theorem pivot_long_recovers_wide:
  assumes "clean_international_migration period tn df = Inr (wide, long)"
  shows "(distinct (map quarter wide) \<longrightarrow> pivot_long long = Inr wide) \<and>
         (\<not> distinct (map quarter wide) \<longrightarrow> pivot_long long = Inl ValueError)"
proof -
  from assms obtain rows where
    w: "wide = sort_key quarter rows"
    and l: "long = sort_key (\<lambda>(geo, q, component, v). (q, component))
              (map (\<lambda>(q, component, v). (''Alberta'', q, component, v)) (melt_wide wide))"
    by (rule clean_mig_Inr)
  have srt: "sorted (map quarter wide)" by (simp add: w)
  have L: "mset (long_triples long) = mset (melt_wide wide)"
    using l by (rule mset_long_triples)
  have pl: "pivot_long long = (case pivot (long_triples long) of Inl e \<Rightarrow> Inl e | Inr p \<Rightarrow> wide_of_pivot p)"
    by (simp add: pivot_long_def long_triples_def)
  show ?thesis
  proof (cases "distinct (map quarter wide)")
    case True
    then obtain p where "pivot (long_triples long) = Inr p" "wide_of_pivot p = Inr wide"
      using pivot_melt_wide [OF srt _ L] by blast
    then show ?thesis using True by (simp add: pl)
  next
    case False
    then have "pivot (long_triples long) = Inl ValueError"
      using L by (rule pivot_duplicate)
    then show ?thesis using False by (simp add: pl)
  qed
qed

text \<open>The statement of C4 at the two rows of the example, whose quarters differ.\<close>

theorem pivot_long_recovers_wide_witness:
  "pivot_long (snd (projr (clean_international_migration yyyy_q_period plain_decimal mig_example))) =
     Inr (fst (projr (clean_international_migration yyyy_q_period plain_decimal mig_example)))"
  using pivot_long_recovers_wide [OF mig_example_result]
  unfolding mig_example_result
  by simp

section \<open>Theorems: interprovincial migration\<close>

lemma pivot_Inr:
  assumes "pivot L = Inr (index, cols)"
  shows "distinct (map (\<lambda>(i, c, v). (i, c)) L)"
    and "sorted index" and "distinct index"
    and "set index = (\<lambda>(i, c, v). i) ` set L"
    and "set (map fst cols) = (\<lambda>(i, c, v). c) ` set L"
    and "list_all (\<lambda>(c, xs). length xs = length index) cols"
proof -
  have d: "distinct (map (\<lambda>(i, c, v). (i, c)) L)"
    using assms by (auto simp: pivot_def Let_def split: if_splits)
  then show "distinct (map (\<lambda>(i, c, v). (i, c)) L)" .
  have i: "index = sort (remdups (map fst (map (\<lambda>(i, c, v). (i, c)) L)))"
    using assms d by (simp add: pivot_def Let_def)
  show "sorted index" "distinct index" by (simp_all add: i)
  show "set index = (\<lambda>(i, c, v). i) ` set L"
    by (simp add: i image_image case_prod_unfold)
  have c: "map fst cols = sort (remdups (map snd (map (\<lambda>(i, c, v). (i, c)) L)))"
    using assms d by (auto simp: pivot_def Let_def o_def)
  show "set (map fst cols) = (\<lambda>(i, c, v). c) ` set L"
    unfolding c by (simp add: image_image case_prod_unfold)
  show "list_all (\<lambda>(c, xs). length xs = length index) cols"
    using assms d by (auto simp: pivot_def Let_def list_all_iff)
qed

lemma reorder_sorted:
  assumes "sorted ds" and "series_length s = length ds"
  shows "reorder ds s = s"
proof -
  have id: "map snd (sort_key fst (zip ds xs)) = xs" if "length xs = length ds" for xs :: "'a list"
  proof -
    have "sorted (map fst (zip ds xs))" using assms(1) that by simp
    then have "sort_key fst (zip ds xs) = zip ds xs" by (rule sort_key_id_if_sorted)
    then show ?thesis using that by simp
  qed
  show ?thesis
    using assms(2) by (cases s) (simp_all add: reorder_def series_length_def id)
qed

lemma named_replace_other:
  "m \<noteq> name \<Longrightarrow>
     named m (map (\<lambda>(c, old). if c = name then (c, s) else (c, old)) w) = named m w"
  by (induction w) (auto simp: named_def split: if_splits)

lemma named_replace_same:
  "named name (map (\<lambda>(c, old). if c = name then (c, s) else (c, old)) w) =
      map (\<lambda>x. (name, s)) (named name w)"
  by (induction w) (auto simp: named_def)

lemma named_absent: "name \<notin> set (map fst w) \<Longrightarrow> named name w = []"
  by (induction w) (auto simp: named_def)

lemma named_setitem_other:
  "m \<noteq> name \<Longrightarrow> named m (setitem w name s) = named m w"
  unfolding setitem_def by (simp add: named_replace_other) (simp add: named_def)

lemma named_setitem_same:
  "named name (setitem w name s) =
     (if name \<in> set (map fst w) then map (\<lambda>x. (name, s)) (named name w) else [(name, s)])"
  unfolding setitem_def by (simp add: named_replace_same) (simp add: named_def named_absent [unfolded named_def])

lemma map_fst_replace:
  "map fst (map (\<lambda>(c, old). if c = name then (c, s) else (c, old)) w) = map fst w"
  by (induction w) auto

lemma names_setitem: "set (map fst (setitem w name s)) = insert name (set (map fst w))"
proof (cases "name \<in> set (map fst w)")
  case True
  then have "setitem w name s = map (\<lambda>(c, old). if c = name then (c, s) else (c, old)) w"
    by (simp add: setitem_def)
  then show ?thesis using True by (simp only: map_fst_replace) auto
next
  case False
  then show ?thesis by (simp add: setitem_def)
qed

lemma frame_ok_replace:
  "frame_ok n w \<Longrightarrow> series_length s = n \<Longrightarrow>
     frame_ok n (map (\<lambda>(c, old). if c = name then (c, s) else (c, old)) w)"
  by (induction w) (auto simp: frame_ok_def split: if_splits)

lemma frame_ok_setitem:
  "frame_ok n w \<Longrightarrow> series_length s = n \<Longrightarrow> frame_ok n (setitem w name s)"
  unfolding setitem_def by (simp add: frame_ok_replace) (simp add: frame_ok_def)

lemma frame_ok_rename: "frame_ok n (rename_columns f w) = frame_ok n w"
  by (auto simp: frame_ok_def rename_columns_def list_all_iff)

lemma get_floats_named: "get_floats w name = Inr xs \<longleftrightarrow> named name w = [(name, Floats xs)]"
proof -
  have "\<forall>x \<in> set (named name w). fst x = name" by (auto simp: named_def)
  then show ?thesis
    unfolding get_floats_def named_def [symmetric]
    by (cases "named name w" rule: list.exhaust)
       (auto split: list.splits series.splits prod.splits)
qed

lemma hd_setitem:
  "c \<noteq> name \<Longrightarrow> setitem ((c, s0) # w) name s = (c, s0) # setitem w name s"
  by (auto simp: setitem_def)

lemma norm_col_quarter: "norm_col ''quarter'' = ''quarter''"
  by (simp add: norm_col_def replace_char_def lower_def lower_char_def strip_def isspace_char_def
      char_of_def bit_Suc_0_iff)

lemma canonical_col_quarter: "canonical_col ''quarter'' = ''quarter''"
  by (simp add: canonical_col_def)

lemma sort_values_quarter_Inr:
  assumes "sort_values_quarter w = Inr wide"
  obtains ds where "named ''quarter'' w = [(''quarter'', Timestamps ds)]"
    and "wide = map (\<lambda>(c, s). (c, reorder ds s)) w"
proof -
  have q: "\<forall>x \<in> set (named ''quarter'' w). fst x = ''quarter''" by (auto simp: named_def)
  from assms obtain c ds where n: "named ''quarter'' w = [(c, Timestamps ds)]"
    and w: "wide = map (\<lambda>(c, s). (c, reorder ds s)) w"
    unfolding sort_values_quarter_def named_def [symmetric]
    by (auto split: list.splits series.splits prod.splits)
  from q n have "c = ''quarter''" by simp
  then show ?thesis using n w that by blast
qed

lemma frame_ok_reorder_id:
  assumes "frame_ok (length ds) w" and "sorted ds"
  shows "map (\<lambda>(c, s). (c, reorder ds s)) w = w"
proof -
  have "\<And>x. x \<in> set w \<Longrightarrow> (case x of (c, s) \<Rightarrow> (c, reorder ds s)) = x"
    using assms by (auto simp: frame_ok_def list_all_iff reorder_sorted)
  then show ?thesis by (simp add: map_idI)
qed

lemma frame_ok_named_length:
  "frame_ok n w \<Longrightarrow> named name w = [(name, Floats xs)] \<Longrightarrow> length xs = n"
proof -
  assume ok: "frame_ok n w" and nm: "named name w = [(name, Floats xs)]"
  have "(name, Floats xs) \<in> set (named name w)" by (simp add: nm)
  then have "(name, Floats xs) \<in> set w" by (simp add: named_def)
  then show ?thesis using ok by (auto simp: frame_ok_def list_all_iff series_length_def)
qed

lemma interprov_wide_Inr:
  assumes ok: "interprov_wide (index, cols) = Inr wide"
    and srt: "sorted index"
    and len: "list_all (\<lambda>(c, xs). length xs = length index) cols"
  obtains ins outs where
    "named ''interprov_in'' wide = [(''interprov_in'', Floats ins)]"
    "named ''interprov_out'' wide = [(''interprov_out'', Floats outs)]"
    "length ins = length index" "length outs = length index"
    "named ''quarter'' wide = [(''quarter'', Timestamps index)]"
    "named ''interprov_net'' wide \<noteq> []"
    "\<forall>x \<in> set (named ''interprov_net'' wide). x = (''interprov_net'', Floats (map2 nan_sub ins outs))"
    "(\<forall>c \<in> set (map fst cols). canonical_col (norm_col c) \<noteq> ''interprov_in'') \<longrightarrow>
        ins = replicate (length index) (Some 0)"
    "(\<forall>c \<in> set (map fst cols). canonical_col (norm_col c) \<noteq> ''interprov_out'') \<longrightarrow>
        outs = replicate (length index) (Some 0)"
proof -
  define n where "n = length index"
  define rest where "rest = map (\<lambda>(c, xs). (canonical_col (norm_col c), Floats xs)) cols"
  define w2 where "w2 = (''quarter'', Timestamps index) # rest"
  define w3 where "w3 = (if ''interprov_in'' \<notin> set (map fst w2)
                     then setitem w2 ''interprov_in'' (Floats (replicate (nrows w2) (Some 0))) else w2)"
  define w4 where "w4 = (if ''interprov_out'' \<notin> set (map fst w3)
                     then setitem w3 ''interprov_out'' (Floats (replicate (nrows w3) (Some 0))) else w3)"
  have r0: "reset_index (index, cols) =
      Inr ((''quarter'', Timestamps index) # map (\<lambda>(c, xs). (c, Floats xs)) cols)"
    using ok by (auto simp: interprov_wide_def reset_index_def split: if_splits)
  have ren: "rename_columns canonical_col (rename_columns norm_col
      ((''quarter'', Timestamps index) # map (\<lambda>(c, xs). (c, Floats xs)) cols)) = w2"
    by (simp add: rename_columns_def w2_def rest_def norm_col_quarter canonical_col_quarter
        o_def case_prod_unfold)
  from ok obtain ins outs where
    gi: "get_floats w4 ''interprov_in'' = Inr ins"
    and go: "get_floats w4 ''interprov_out'' = Inr outs"
    and sv: "sort_values_quarter (setitem w4 ''interprov_net'' (Floats (map2 nan_sub ins outs))) = Inr wide"
    unfolding interprov_wide_def r0 sum.case Let_def ren w3_def [symmetric] w4_def [symmetric]
    by (auto split: sum.splits)
  define w5 where "w5 = setitem w4 ''interprov_net'' (Floats (map2 nan_sub ins outs))"
  have names_rest: "set (map fst rest) = (\<lambda>c. canonical_col (norm_col c)) ` set (map fst cols)"
    by (simp add: rest_def image_image case_prod_unfold)
  have ok2: "frame_ok n w2"
    using len by (auto simp: frame_ok_def w2_def rest_def list_all_iff series_length_def n_def)
  have n2: "nrows w2 = n" by (simp add: nrows_def w2_def series_length_def n_def)
  have ok3: "frame_ok n w3"
    unfolding w3_def using ok2 n2 by (simp add: frame_ok_setitem series_length_def)
  have h3: "w3 = (''quarter'', Timestamps index) # tl w3"
    unfolding w3_def w2_def by (simp add: hd_setitem)
  have n3: "nrows w3 = n" by (subst h3) (simp add: nrows_def series_length_def n_def)
  have ok4: "frame_ok n w4"
    unfolding w4_def using ok3 n3 by (simp add: frame_ok_setitem series_length_def)
  have ni: "named ''interprov_in'' w4 = [(''interprov_in'', Floats ins)]"
    using gi by (simp add: get_floats_named)
  have no: "named ''interprov_out'' w4 = [(''interprov_out'', Floats outs)]"
    using go by (simp add: get_floats_named)
  have li: "length ins = n" using ok4 ni by (rule frame_ok_named_length)
  have lo: "length outs = n" using ok4 no by (rule frame_ok_named_length)
  have ok5: "frame_ok n w5"
    unfolding w5_def using ok4 li lo by (simp add: frame_ok_setitem series_length_def)
  from sv obtain ds where q5: "named ''quarter'' w5 = [(''quarter'', Timestamps ds)]"
    and wide: "wide = map (\<lambda>(c, s). (c, reorder ds s)) w5"
    unfolding w5_def [symmetric] by (rule sort_values_quarter_Inr)
  have "named ''quarter'' w5 = named ''quarter'' w2"
    unfolding w5_def w4_def w3_def by (simp add: named_setitem_other)
  then have "(''quarter'', Timestamps index) \<in> set (named ''quarter'' w5)"
    by (simp add: w2_def named_def)
  then have ds: "ds = index" by (simp add: q5)
  have w: "wide = w5"
    unfolding wide ds using ok5 srt unfolding n_def by (rule frame_ok_reorder_id)
  have A: "named ''interprov_in'' wide = [(''interprov_in'', Floats ins)]"
    unfolding w w5_def using ni by (simp add: named_setitem_other)
  have B: "named ''interprov_out'' wide = [(''interprov_out'', Floats outs)]"
    unfolding w w5_def using no by (simp add: named_setitem_other)
  have C: "named ''quarter'' wide = [(''quarter'', Timestamps index)]"
    unfolding w using q5 ds by simp
  have D: "named ''interprov_net'' wide \<noteq> []"
    unfolding w w5_def named_setitem_same
    by (auto simp: named_def filter_empty_conv)
  have E: "\<forall>x \<in> set (named ''interprov_net'' wide). x = (''interprov_net'', Floats (map2 nan_sub ins outs))"
    unfolding w w5_def named_setitem_same by auto
  have F: "ins = replicate (length index) (Some 0)"
    if "\<forall>c \<in> set (map fst cols). canonical_col (norm_col c) \<noteq> ''interprov_in''"
  proof -
    have "''interprov_in'' \<notin> set (map fst w2)"
      using that names_rest by (auto simp: w2_def)
    then have "named ''interprov_in'' w3 = [(''interprov_in'', Floats (replicate n (Some 0)))]"
      unfolding w3_def using n2 by (simp add: named_setitem_same)
    moreover have "named ''interprov_in'' w4 = named ''interprov_in'' w3"
      unfolding w4_def by (simp add: named_setitem_other)
    ultimately show ?thesis using ni by (simp add: n_def)
  qed
  have G: "outs = replicate (length index) (Some 0)"
    if "\<forall>c \<in> set (map fst cols). canonical_col (norm_col c) \<noteq> ''interprov_out''"
  proof -
    have "''interprov_out'' \<notin> set (map fst w2)"
      using that names_rest by (auto simp: w2_def)
    then have "''interprov_out'' \<notin> set (map fst w3)"
      unfolding w3_def by (simp add: names_setitem del: set_map)
    then have "named ''interprov_out'' w4 = [(''interprov_out'', Floats (replicate n (Some 0)))]"
      unfolding w4_def using n3 by (simp add: named_setitem_same)
    then show ?thesis using no by (simp add: n_def)
  qed
  show ?thesis
    using that [OF A B li [unfolded n_def] lo [unfolded n_def] C D E] F G by blast
qed

lemma clean_interprov_Inr:
  assumes "clean_interprov_migration py_int to_float df = Inr (long, wide)"
  obtains index cols where
    "interprov_long_table py_int to_float df = Inr long"
    "pivot (map (\<lambda>(flow, lbl, p, q). (q, flow, p)) long) = Inr (index, cols)"
    "interprov_wide (index, cols) = Inr wide"
  using assms
  by (auto simp: clean_interprov_migration_def split: sum.splits)

lemma canonical_col_out:
  "canonical_col c = ''interprov_out'' \<Longrightarrow> contains ''out-migrants'' c \<or> c = ''interprov_out''"
  by (auto simp: canonical_col_def split: if_splits)

lemma canonical_col_in:
  "canonical_col c = ''interprov_in'' \<Longrightarrow> contains ''in-migrants'' c \<or> c = ''interprov_in''"
  by (auto simp: canonical_col_def split: if_splits)


lemma list_all2_map_eq:
  "list_all2 R xs ys \<Longrightarrow> (\<And>x y. R x y \<Longrightarrow> f y = g x) \<Longrightarrow> map f ys = map g xs"
  by (induction xs ys rule: list_all2_induct) auto

lemma interprov_long_keys:
  assumes "interprov_long_table py_int to_float df = Inr long"
  shows "map (\<lambda>(flow, lbl, p, q). (q, flow)) long =
     map (\<lambda>(flow, lbl, cell). (projr (to_q_end py_int lbl), flow)) (melt_interprov df)"
proof -
  from assms obtain wp where
    t1: "traverse (\<lambda>(flow, lbl, cell).
                       case to_float (strip (replace_char (CHR '','') [] cell)) of
                         None \<Rightarrow> Inl ValueError
                       | Some p \<Rightarrow> Inr (flow, lbl, p)) (melt_interprov df) = Inr wp"
    and t2: "traverse (\<lambda>(flow, lbl, p). case to_q_end py_int lbl of
                                        Inl e \<Rightarrow> Inl e
                                      | Inr q \<Rightarrow> Inr (flow, lbl, p, q)) wp = Inr long"
    by (auto simp: interprov_long_table_def split: sum.splits)
  have a: "map (\<lambda>(flow, lbl, p). (flow, lbl)) wp = map (\<lambda>(flow, lbl, cell). (flow, lbl)) (melt_interprov df)"
    using traverse_Inr [OF t1]
    by (rule list_all2_map_eq) (auto split: option.splits)
  have b: "map (\<lambda>(flow, lbl, p, q). (q, flow)) long =
      map (\<lambda>(flow, lbl, p). (projr (to_q_end py_int lbl), flow)) wp"
    using traverse_Inr [OF t2]
    by (rule list_all2_map_eq) (auto split: sum.splits)
  have "map (\<lambda>(flow, lbl, p). (projr (to_q_end py_int lbl), flow)) wp =
      map (\<lambda>(flow, lbl). (projr (to_q_end py_int lbl), flow)) (map (\<lambda>(flow, lbl, p). (flow, lbl)) wp)"
    by (simp add: o_def case_prod_unfold)
  also have "\<dots> = map (\<lambda>(flow, lbl, cell). (projr (to_q_end py_int lbl), flow)) (melt_interprov df)"
    unfolding a by (simp add: o_def case_prod_unfold)
  finally show ?thesis using b by simp
qed

lemma same_quarter_columns_duplicate:
  assumes long: "interprov_long_table py_int to_float df = Inr long"
    and cols: "quarter_columns df = A @ (l1, c1) # B @ (l2, c2) # C"
    and same: "to_q_end py_int l1 = to_q_end py_int l2"
    and rows: "iloc_1_3 (first_column df) \<noteq> []" "iloc_1_3 c1 \<noteq> []" "iloc_1_3 c2 \<noteq> []"
  shows "\<not> distinct (map (\<lambda>(flow, lbl, p, q). (q, flow)) long)"
proof -
  define G where "G = (\<lambda>(lbl :: string, cells :: string list). map (\<lambda>(flow, cell). (flow, lbl, cell))
                    (zip (iloc_1_3 (first_column df)) (iloc_1_3 cells)))"
  define K where "K = (\<lambda>(flow :: string, lbl, cell :: string). (projr (to_q_end py_int lbl), flow))"
  obtain f0 fs where f: "iloc_1_3 (first_column df) = f0 # fs" using rows(1) by (cases "iloc_1_3 (first_column df)") auto
  obtain x xs where x: "iloc_1_3 c1 = x # xs" using rows(2) by (cases "iloc_1_3 c1") auto
  obtain y ys where y: "iloc_1_3 c2 = y # ys" using rows(3) by (cases "iloc_1_3 c2") auto
  have m: "melt_interprov df = concat (map G A) @ G (l1, c1) @ concat (map G B) @ G (l2, c2) @ concat (map G C)"
    by (simp add: melt_interprov_def G_def cols)
  have k1: "(projr (to_q_end py_int l1), f0) \<in> set (map K (G (l1, c1)))"
    by (simp add: G_def K_def f x)
  have k2: "(projr (to_q_end py_int l1), f0) \<in> set (map K (G (l2, c2)))"
    by (simp add: G_def K_def f y same)
  have "map (\<lambda>(flow, lbl, p, q). (q, flow)) long = map K (melt_interprov df)"
    unfolding K_def using long by (rule interprov_long_keys)
  also have "\<dots> = map K (concat (map G A)) @ map K (G (l1, c1)) @ map K (concat (map G B)) @
      map K (G (l2, c2)) @ map K (concat (map G C))"
    unfolding m by simp
  finally show ?thesis
    using k1 k2 by (auto simp del: set_map)
qed

lemma interprov_duplicate_pair_raises:
  "(interprov_long_table py_int to_float df = Inr long \<and>
      \<not> distinct (map (\<lambda>(flow, lbl, p, q). (q, flow)) long) \<longrightarrow>
      clean_interprov_migration py_int to_float df = Inl ValueError) \<and>
   (clean_interprov_migration py_int to_float df = Inr (long, wide) \<longrightarrow>
      (\<exists>qs. named ''quarter'' wide = [(''quarter'', Timestamps qs)] \<and> distinct qs \<and>
            set qs = (\<lambda>(flow, lbl, p, q). q) ` set long))"
proof (intro conjI impI)
  assume h: "interprov_long_table py_int to_float df = Inr long \<and>
      \<not> distinct (map (\<lambda>(flow, lbl, p, q). (q, flow)) long)"
  have keq: "map (\<lambda>(i, c, v). (i, c)) (map (\<lambda>(flow, lbl, p, q). (q, flow, p)) long) =
      map (\<lambda>(flow, lbl, p, q). (q, flow)) long"
    by (simp add: o_def case_prod_unfold)
  have "pivot (map (\<lambda>(flow, lbl, p, q). (q, flow, p)) long) = Inl ValueError"
    unfolding pivot_def Let_def keq using h by simp
  then show "clean_interprov_migration py_int to_float df = Inl ValueError"
    using h by (simp add: clean_interprov_migration_def)
next
  assume ok: "clean_interprov_migration py_int to_float df = Inr (long, wide)"
  then obtain index cols where
    piv: "pivot (map (\<lambda>(flow, lbl, p, q). (q, flow, p)) long) = Inr (index, cols)"
    and wd: "interprov_wide (index, cols) = Inr wide"
    by (rule clean_interprov_Inr)
  note P = pivot_Inr [OF piv]
  from wd P(2) P(6) have C: "named ''quarter'' wide = [(''quarter'', Timestamps index)]"
    by (rule interprov_wide_Inr)
  have "set index = (\<lambda>(flow, lbl, p, q). q) ` set long"
    unfolding P(4) by (simp add: image_image case_prod_unfold)
  then show "\<exists>qs. named ''quarter'' wide = [(''quarter'', Timestamps qs)] \<and> distinct qs \<and>
            set qs = (\<lambda>(flow, lbl, p, q). q) ` set long"
    using C P(3) by blast
qed


lemma interprov_long_rows:
  assumes "interprov_long_table py_int to_float df = Inr long"
  shows "map (\<lambda>(flow, lbl, p, q). (flow, lbl, Some p, Inr q)) long =
     map (\<lambda>(flow, lbl, cell).
            (flow, lbl, to_float (strip (replace_char (CHR '','') [] cell)), to_q_end py_int lbl))
       (melt_interprov df)"
proof -
  from assms obtain wp where
    t1: "traverse (\<lambda>(flow, lbl, cell).
                       case to_float (strip (replace_char (CHR '','') [] cell)) of
                         None \<Rightarrow> Inl ValueError
                       | Some p \<Rightarrow> Inr (flow, lbl, p)) (melt_interprov df) = Inr wp"
    and t2: "traverse (\<lambda>(flow, lbl, p). case to_q_end py_int lbl of
                                        Inl e \<Rightarrow> Inl e
                                      | Inr q \<Rightarrow> Inr (flow, lbl, p, q)) wp = Inr long"
    by (auto simp: interprov_long_table_def split: sum.splits)
  have a: "map (\<lambda>(flow, lbl, p). (flow, lbl, Some p)) wp =
      map (\<lambda>(flow, lbl, cell). (flow, lbl, to_float (strip (replace_char (CHR '','') [] cell))))
        (melt_interprov df)"
    using traverse_Inr [OF t1]
    by (rule list_all2_map_eq) (auto split: option.splits)
  have b: "map (\<lambda>(flow, lbl, p, q). (flow, lbl, Some p, Inr q)) long =
      map (\<lambda>(flow, lbl, p). (flow, lbl, Some p, to_q_end py_int lbl)) wp"
    using traverse_Inr [OF t2]
    by (rule list_all2_map_eq) (auto split: sum.splits)
  have "map (\<lambda>(flow, lbl, p). (flow, lbl, Some p, to_q_end py_int lbl)) wp =
      map (\<lambda>(flow, lbl, sp). (flow, lbl, sp, to_q_end py_int lbl))
        (map (\<lambda>(flow, lbl, p). (flow, lbl, Some p)) wp)"
    by (simp add: o_def case_prod_unfold)
  also have "\<dots> = map (\<lambda>(flow, lbl, cell).
            (flow, lbl, to_float (strip (replace_char (CHR '','') [] cell)), to_q_end py_int lbl))
       (melt_interprov df)"
    unfolding a by (simp add: o_def case_prod_unfold)
  finally show ?thesis using b by simp
qed

lemma iloc_1_3_rows: "3 \<le> length xs \<Longrightarrow> iloc_1_3 xs = [xs ! 1, xs ! 2]"
proof -
  assume "3 \<le> length xs"
  then obtain a b c rest where "xs = a # b # c # rest"
    by (cases xs; cases "tl xs"; cases "tl (tl xs)") auto
  then show "iloc_1_3 xs = [xs ! 1, xs ! 2]"
    by (simp add: iloc_1_3_def)
qed

lemma melt_interprov_rows:
  assumes "3 \<le> length (first_column df)"
    and "\<forall>(lbl, cells) \<in> set (quarter_columns df). 3 \<le> length cells"
  shows "melt_interprov df =
     concat (map (\<lambda>(lbl, cells).
                    [(first_column df ! 1, lbl, cells ! 1), (first_column df ! 2, lbl, cells ! 2)])
               (quarter_columns df))"
proof -
  have "(case x of (lbl, cells) \<Rightarrow> map (\<lambda>(flow, cell). (flow, lbl, cell))
                    (zip (iloc_1_3 (first_column df)) (iloc_1_3 cells))) =
        (case x of (lbl, cells) \<Rightarrow>
           [(first_column df ! 1, lbl, cells ! 1), (first_column df ! 2, lbl, cells ! 2)])"
    if "x \<in> set (quarter_columns df)" for x
  proof -
    obtain lbl cells where x: "x = (lbl, cells)" by (cases x) auto
    then have "3 \<le> length cells" using that assms(2) by auto
    then show ?thesis
      using assms(1) by (simp add: x iloc_1_3_rows)
  qed
  then show ?thesis
    unfolding melt_interprov_def by (simp cong: map_cong)
qed

lemma melt_interprov_cong:
  assumes "iloc_1_3 (first_column df) = iloc_1_3 (first_column df')"
    and "map (\<lambda>(lbl, cells). (lbl, iloc_1_3 cells)) (quarter_columns df) =
         map (\<lambda>(lbl, cells). (lbl, iloc_1_3 cells)) (quarter_columns df')"
  shows "melt_interprov df = melt_interprov df'"
proof -
  have E: "melt_interprov d =
      concat (map (\<lambda>(lbl, sel). map (\<lambda>(flow, cell). (flow, lbl, cell)) (zip (iloc_1_3 (first_column d)) sel))
        (map (\<lambda>(lbl, cells). (lbl, iloc_1_3 cells)) (quarter_columns d)))" for d
    by (simp add: melt_interprov_def o_def case_prod_unfold)
  show ?thesis by (simp only: E assms)
qed


subsection \<open>The claims about interprovincial migration\<close>

text \<open>
  Claim C5, amended. On success the wide output has one \<^verbatim>\<open>quarter\<close> column, sorted
  ascending, one \<^verbatim>\<open>interprov_in\<close> and one \<^verbatim>\<open>interprov_out\<close> column with one value per
  quarter, and \<^verbatim>\<open>interprov_net\<close> is, row by row, in minus out (NaN when either is NaN).
  When no flow label of the long table, normalised, contains \<^verbatim>\<open>out-migrants\<close> or is
  itself \<^verbatim>\<open>interprov_out\<close>, interprov_out is zero for all quarters; symmetrically for
  \<^verbatim>\<open>in-migrants\<close>, \<^verbatim>\<open>interprov_in\<close> and interprov_in.
\<close>

theorem interprov_net_is_in_minus_out:
  assumes "clean_interprov_migration py_int to_float df = Inr (long, wide)"
  shows "\<exists>qs ins outs.
     named ''quarter'' wide = [(''quarter'', Timestamps qs)] \<and> sorted qs \<and>
     named ''interprov_in'' wide = [(''interprov_in'', Floats ins)] \<and>
     named ''interprov_out'' wide = [(''interprov_out'', Floats outs)] \<and>
     length ins = length qs \<and> length outs = length qs \<and>
     named ''interprov_net'' wide \<noteq> [] \<and>
     (\<forall>x \<in> set (named ''interprov_net'' wide). x = (''interprov_net'', Floats (map2 nan_sub ins outs))) \<and>
     ((\<forall>(flow, lbl, p, q) \<in> set long.
          \<not> contains ''out-migrants'' (norm_col flow) \<and> norm_col flow \<noteq> ''interprov_out'') \<longrightarrow>
        outs = replicate (length qs) (Some 0)) \<and>
     ((\<forall>(flow, lbl, p, q) \<in> set long.
          \<not> contains ''in-migrants'' (norm_col flow) \<and> norm_col flow \<noteq> ''interprov_in'') \<longrightarrow>
        ins = replicate (length qs) (Some 0))"
proof -
  from assms obtain index cols where
    piv: "pivot (map (\<lambda>(flow, lbl, p, q). (q, flow, p)) long) = Inr (index, cols)"
    and wd: "interprov_wide (index, cols) = Inr wide"
    by (rule clean_interprov_Inr)
  note P = pivot_Inr [OF piv]
  have names: "set (map fst cols) = (\<lambda>(flow, lbl, p, q). flow) ` set long"
    unfolding P(5) by (simp add: image_image case_prod_unfold)
  from wd P(2) P(6) obtain ins outs where
    A: "named ''interprov_in'' wide = [(''interprov_in'', Floats ins)]"
    and B: "named ''interprov_out'' wide = [(''interprov_out'', Floats outs)]"
    and li: "length ins = length index" and lo: "length outs = length index"
    and C: "named ''quarter'' wide = [(''quarter'', Timestamps index)]"
    and D: "named ''interprov_net'' wide \<noteq> []"
    and E: "\<forall>x \<in> set (named ''interprov_net'' wide). x = (''interprov_net'', Floats (map2 nan_sub ins outs))"
    and F: "(\<forall>c \<in> set (map fst cols). canonical_col (norm_col c) \<noteq> ''interprov_in'') \<longrightarrow>
        ins = replicate (length index) (Some 0)"
    and G: "(\<forall>c \<in> set (map fst cols). canonical_col (norm_col c) \<noteq> ''interprov_out'') \<longrightarrow>
        outs = replicate (length index) (Some 0)"
    by (rule interprov_wide_Inr)
  have G': "outs = replicate (length index) (Some 0)"
    if h: "\<forall>(flow, lbl, p, q) \<in> set long.
          \<not> contains ''out-migrants'' (norm_col flow) \<and> norm_col flow \<noteq> ''interprov_out''"
  proof -
    have "\<forall>c \<in> set (map fst cols). canonical_col (norm_col c) \<noteq> ''interprov_out''"
      unfolding names using h canonical_col_out by fastforce
    then show ?thesis using G by blast
  qed
  have F': "ins = replicate (length index) (Some 0)"
    if h: "\<forall>(flow, lbl, p, q) \<in> set long.
          \<not> contains ''in-migrants'' (norm_col flow) \<and> norm_col flow \<noteq> ''interprov_in''"
  proof -
    have "\<forall>c \<in> set (map fst cols). canonical_col (norm_col c) \<noteq> ''interprov_in''"
      unfolding names using h canonical_col_in by fastforce
    then show ?thesis using F by blast
  qed
  show ?thesis
    using A B C D E F' G' li lo P(2) by blast
qed


text \<open>
  Claim C10, amended. When two quarter-label columns parse to the same quarter-end date and
  at least one flow row is consumed (\<^verbatim>\<open>df.iloc[1:3]\<close> is not empty), so that some
  (quarter, flow_type) pair occurs more than once in the long table, the cleaner raises; it
  raises whenever such a pair repeats. On every successful run the \<^verbatim>\<open>quarter\<close> column of
  the wide output holds every quarter of the long table exactly once.
\<close>

theorem interprov_duplicate_quarter_raises:
  "(quarter_columns df = A @ (l1, c1) # B @ (l2, c2) # C \<and>
      to_q_end py_int l1 = to_q_end py_int l2 \<and>
      iloc_1_3 (first_column df) \<noteq> [] \<and> iloc_1_3 c1 \<noteq> [] \<and> iloc_1_3 c2 \<noteq> [] \<longrightarrow>
      isl (clean_interprov_migration py_int to_float df)) \<and>
   (interprov_long_table py_int to_float df = Inr long \<and>
      \<not> distinct (map (\<lambda>(flow, lbl, p, q). (q, flow)) long) \<longrightarrow>
      clean_interprov_migration py_int to_float df = Inl ValueError) \<and>
   (clean_interprov_migration py_int to_float df = Inr (long, wide) \<longrightarrow>
      (\<exists>qs. named ''quarter'' wide = [(''quarter'', Timestamps qs)] \<and> distinct qs \<and>
            set qs = (\<lambda>(flow, lbl, p, q). q) ` set long))"
proof -
  have first: "isl (clean_interprov_migration py_int to_float df)"
    if h: "quarter_columns df = A @ (l1, c1) # B @ (l2, c2) # C \<and>
      to_q_end py_int l1 = to_q_end py_int l2 \<and>
      iloc_1_3 (first_column df) \<noteq> [] \<and> iloc_1_3 c1 \<noteq> [] \<and> iloc_1_3 c2 \<noteq> []"
  proof (cases "interprov_long_table py_int to_float df")
    case (Inl e)
    then show ?thesis by (simp add: clean_interprov_migration_def)
  next
    case (Inr long')
    then have "\<not> distinct (map (\<lambda>(flow, lbl, p, q). (q, flow)) long')"
      using h same_quarter_columns_duplicate by blast
    then have "clean_interprov_migration py_int to_float df = Inl ValueError"
      using Inr interprov_duplicate_pair_raises [of py_int to_float df long'] by blast
    then show ?thesis by simp
  qed
  show ?thesis
    using first interprov_duplicate_pair_raises [of py_int to_float df long wide] by blast
qed

text \<open>
  Claim C7, amended. The cleaner consumes the data rows at the 0-indexed positions 1 and 2
  (\<^verbatim>\<open>df.iloc[1:3]\<close>, the second and third data rows) as the two flow series, skipping only
  the first data row. On success, for a frame with at least three data rows, the long
  table holds for every quarter column, in column order, exactly two rows: the flow label
  and the count of data row 1, then those of data row 2, each with the column's label and
  its quarter-end date. Two frames with the same column names that agree on these two
  rows give the same result, whatever their other rows are.
\<close>

theorem interprov_consumes_rows_1_2:
  "(clean_interprov_migration py_int to_float df = Inr (long, wide) \<and>
    3 \<le> length (first_column df) \<and>
    (\<forall>(lbl, cells) \<in> set (quarter_columns df). 3 \<le> length cells) \<longrightarrow>
    map (\<lambda>(flow, lbl, p, q). (flow, lbl, Some p, Inr q)) long =
      concat (map (\<lambda>(lbl, cells).
         [(first_column df ! 1, lbl,
           to_float (strip (replace_char (CHR '','') [] (cells ! 1))), to_q_end py_int lbl),
          (first_column df ! 2, lbl,
           to_float (strip (replace_char (CHR '','') [] (cells ! 2))), to_q_end py_int lbl)])
        (quarter_columns df))) \<and>
   (iloc_1_3 (first_column df) = iloc_1_3 (first_column df') \<and>
    map (\<lambda>(lbl, cells). (lbl, iloc_1_3 cells)) (quarter_columns df) =
      map (\<lambda>(lbl, cells). (lbl, iloc_1_3 cells)) (quarter_columns df') \<longrightarrow>
    clean_interprov_migration py_int to_float df = clean_interprov_migration py_int to_float df') \<and>
   (3 \<le> length xs \<longrightarrow> iloc_1_3 xs = [xs ! 1, xs ! 2])"
proof (intro conjI impI)
  assume h: "clean_interprov_migration py_int to_float df = Inr (long, wide) \<and>
    3 \<le> length (first_column df) \<and>
    (\<forall>(lbl, cells) \<in> set (quarter_columns df). 3 \<le> length cells)"
  then have lt: "interprov_long_table py_int to_float df = Inr long"
    by (auto elim: clean_interprov_Inr)
  have m: "melt_interprov df =
     concat (map (\<lambda>(lbl, cells).
                    [(first_column df ! 1, lbl, cells ! 1), (first_column df ! 2, lbl, cells ! 2)])
               (quarter_columns df))"
    using h by (intro melt_interprov_rows) auto
  show "map (\<lambda>(flow, lbl, p, q). (flow, lbl, Some p, Inr q)) long =
      concat (map (\<lambda>(lbl, cells).
         [(first_column df ! 1, lbl,
           to_float (strip (replace_char (CHR '','') [] (cells ! 1))), to_q_end py_int lbl),
          (first_column df ! 2, lbl,
           to_float (strip (replace_char (CHR '','') [] (cells ! 2))), to_q_end py_int lbl)])
        (quarter_columns df))"
    unfolding interprov_long_rows [OF lt] m
    by (simp add: map_concat o_def case_prod_unfold)
next
  assume "iloc_1_3 (first_column df) = iloc_1_3 (first_column df') \<and>
    map (\<lambda>(lbl, cells). (lbl, iloc_1_3 cells)) (quarter_columns df) =
      map (\<lambda>(lbl, cells). (lbl, iloc_1_3 cells)) (quarter_columns df')"
  then have "melt_interprov df = melt_interprov df'"
    using melt_interprov_cong by blast
  then show "clean_interprov_migration py_int to_float df = clean_interprov_migration py_int to_float df'"
    by (simp add: clean_interprov_migration_def interprov_long_table_def)
next
  assume "3 \<le> length xs"
  then show "iloc_1_3 xs = [xs ! 1, xs ! 2]"
    by (rule iloc_1_3_rows)
qed

lemmas interprov_defs = interprov_long_table_def melt_interprov_def iloc_1_3_def to_q_end_def
  split_def strip_def isspace_char_def replace_char_def plain_int_def plain_float_def
  timestamp_month_end_def month_end_def

lemmas wide_defs = interprov_wide_def reset_index_def rename_columns_def norm_col_def canonical_col_def
  lower_def lower_char_def char_of_def bit_Suc_0_iff strip_def isspace_char_def replace_char_def
  setitem_def nrows_def series_length_def get_floats_def sort_values_quarter_def reorder_def nan_sub_def

lemma interprov_long_example:
  "interprov_long_table plain_int plain_float interprov_example =
     Inr [(''In-migrants'', ''Q1 2024'', Some 10000, (2024, 3, 31)),
          (''Out-migrants'', ''Q1 2024'', Some 8000, (2024, 3, 31)),
          (''In-migrants'', ''Q2 2024'', Some 12000, (2024, 6, 30)),
          (''Out-migrants'', ''Q2 2024'', Some 9500, (2024, 6, 30))]"
  by (simp add: interprov_example_def interprov_defs parse_defs)

lemma interprov_pivot_example:
  "pivot (map (\<lambda>(flow, lbl, p, q). (q, flow, p))
         ([(''In-migrants'', ''Q1 2024'', Some 10000, (2024, 3, 31)),
           (''Out-migrants'', ''Q1 2024'', Some 8000, (2024, 3, 31)),
           (''In-migrants'', ''Q2 2024'', Some 12000, (2024, 6, 30)),
           (''Out-migrants'', ''Q2 2024'', Some 9500, (2024, 6, 30))] :: interprov_long list)) =
     Inr ([(2024, 3, 31), (2024, 6, 30)],
          [(''In-migrants'', [Some 10000, Some 12000]), (''Out-migrants'', [Some 8000, Some 9500])])"
  by (simp add: pivot_def)

lemma interprov_wide_example:
  "interprov_wide ([(2024, 3, 31), (2024, 6, 30)],
          [(''In-migrants'', [Some 10000, Some 12000]), (''Out-migrants'', [Some 8000, Some 9500])]) =
     Inr [(''quarter'', Timestamps [(2024, 3, 31), (2024, 6, 30)]),
       (''interprov_in'', Floats [Some 10000, Some 12000]),
       (''interprov_out'', Floats [Some 8000, Some 9500]),
       (''interprov_net'', Floats [Some 2000, Some 2500])]"
  by (simp add: wide_defs)

lemma clean_interprov_example:
  "clean_interprov_migration plain_int plain_float interprov_example =
     Inr ([(''In-migrants'', ''Q1 2024'', Some 10000, (2024, 3, 31)),
           (''Out-migrants'', ''Q1 2024'', Some 8000, (2024, 3, 31)),
           (''In-migrants'', ''Q2 2024'', Some 12000, (2024, 6, 30)),
           (''Out-migrants'', ''Q2 2024'', Some 9500, (2024, 6, 30))],
          [(''quarter'', Timestamps [(2024, 3, 31), (2024, 6, 30)]),
           (''interprov_in'', Floats [Some 10000, Some 12000]),
           (''interprov_out'', Floats [Some 8000, Some 9500]),
           (''interprov_net'', Floats [Some 2000, Some 2500])])"
  by (simp only: clean_interprov_migration_def interprov_long_example sum.case
      interprov_pivot_example interprov_wide_example)

lemma interprov_long_row1_changed:
  "interprov_long_table plain_int plain_float interprov_row1_changed =
     Inr [(''In-migrants'', ''Q1 2024'', Some 11000, (2024, 3, 31)),
          (''Out-migrants'', ''Q1 2024'', Some 8000, (2024, 3, 31)),
          (''In-migrants'', ''Q2 2024'', Some 12000, (2024, 6, 30)),
          (''Out-migrants'', ''Q2 2024'', Some 9500, (2024, 6, 30))]"
  by (simp add: interprov_row1_changed_def interprov_defs parse_defs)

lemma interprov_long_literal_out:
  "interprov_long_table plain_int plain_float interprov_literal_out =
     Inr [(''In-migrants'', ''Q1 2024'', Some 10000, (2024, 3, 31)),
          (''interprov_out'', ''Q1 2024'', Some 8000, (2024, 3, 31))]"
  by (simp add: interprov_literal_out_def interprov_defs parse_defs)

lemma interprov_pivot_literal_out:
  "pivot (map (\<lambda>(flow, lbl, p, q). (q, flow, p))
         ([(''In-migrants'', ''Q1 2024'', Some 10000, (2024, 3, 31)),
           (''interprov_out'', ''Q1 2024'', Some 8000, (2024, 3, 31))] :: interprov_long list)) =
     Inr ([(2024, 3, 31)], [(''In-migrants'', [Some 10000]), (''interprov_out'', [Some 8000])])"
  by (simp add: pivot_def)

lemma interprov_wide_literal_out:
  "interprov_wide ([(2024, 3, 31)], [(''In-migrants'', [Some 10000]), (''interprov_out'', [Some 8000])]) =
     Inr [(''quarter'', Timestamps [(2024, 3, 31)]),
       (''interprov_in'', Floats [Some 10000]),
       (''interprov_out'', Floats [Some 8000]),
       (''interprov_net'', Floats [Some 2000])]"
  by (simp add: wide_defs)

lemma clean_interprov_literal_out:
  "clean_interprov_migration plain_int plain_float interprov_literal_out =
     Inr ([(''In-migrants'', ''Q1 2024'', Some 10000, (2024, 3, 31)),
           (''interprov_out'', ''Q1 2024'', Some 8000, (2024, 3, 31))],
          [(''quarter'', Timestamps [(2024, 3, 31)]),
           (''interprov_in'', Floats [Some 10000]),
           (''interprov_out'', Floats [Some 8000]),
           (''interprov_net'', Floats [Some 2000])])"
  by (simp only: clean_interprov_migration_def interprov_long_literal_out sum.case
      interprov_pivot_literal_out interprov_wide_literal_out)

lemma interprov_long_same_quarter:
  "interprov_long_table plain_int plain_float interprov_same_quarter =
     Inr [(''In-migrants'', ''Q1 2024'', Some 10000, (2024, 3, 31)),
          (''Out-migrants'', ''Q1 2024'', Some 8000, (2024, 3, 31)),
          (''In-migrants'', ''Q01 2024'', Some 12000, (2024, 3, 31)),
          (''Out-migrants'', ''Q01 2024'', Some 9500, (2024, 3, 31))]"
  by (simp add: interprov_same_quarter_def interprov_defs parse_defs)

text \<open>
  Claim C5 as stated fails: with the flow labels \<^verbatim>\<open>In-migrants\<close> and \<^verbatim>\<open>interprov_out\<close>
  no pivoted column's normalised name contains \<^verbatim>\<open>out-migrants\<close>, the cleaner succeeds,
  and interprov_out is 8000, not zero, because a column of that name exists already.
\<close>

theorem interprov_literal_out_counterexample:
  "\<not> contains ''out-migrants'' (norm_col ''In-migrants'') \<and>
   \<not> contains ''out-migrants'' (norm_col ''interprov_out'') \<and>
   clean_interprov_migration plain_int plain_float interprov_literal_out =
     Inr ([(''In-migrants'', ''Q1 2024'', Some 10000, (2024, 3, 31)),
           (''interprov_out'', ''Q1 2024'', Some 8000, (2024, 3, 31))],
          [(''quarter'', Timestamps [(2024, 3, 31)]),
           (''interprov_in'', Floats [Some 10000]),
           (''interprov_out'', Floats [Some 8000]),
           (''interprov_net'', Floats [Some 2000])])"
proof -
  have "\<not> contains ''out-migrants'' (norm_col ''In-migrants'')"
    by (simp add: norm_col_def lower_def lower_char_def char_of_def bit_Suc_0_iff strip_def
        isspace_char_def replace_char_def)
  moreover have "\<not> contains ''out-migrants'' (norm_col ''interprov_out'')"
    by (simp add: norm_col_def lower_def lower_char_def char_of_def bit_Suc_0_iff strip_def
        isspace_char_def replace_char_def)
  ultimately show ?thesis
    by (simp only: clean_interprov_literal_out simp_thms)
qed

text \<open>The statement of C5 at the example frame.\<close>

theorem interprov_net_is_in_minus_out_witness:
  "named ''interprov_net'' (snd (projr (clean_interprov_migration plain_int plain_float interprov_example))) =
     [(''interprov_net'', Floats (map2 nan_sub [Some 10000, Some 12000] [Some 8000, Some 9500]))]"
  using interprov_net_is_in_minus_out [OF clean_interprov_example]
  unfolding clean_interprov_example
  by (simp add: named_def nan_sub_def)

text \<open>
  Claim C7 as stated fails: the two frames agree on the data row 0 and on every data row
  from the 0-indexed position 2 on, in particular on rows 2 and 3; they differ in row 1
  only, and the results differ.
\<close>

theorem interprov_row1_counterexample:
  "drop 2 (first_column interprov_example) = drop 2 (first_column interprov_row1_changed) \<and>
   map (\<lambda>(lbl, cells). (lbl, drop 2 cells)) (quarter_columns interprov_example) =
     map (\<lambda>(lbl, cells). (lbl, drop 2 cells)) (quarter_columns interprov_row1_changed) \<and>
   take 1 (first_column interprov_example) = take 1 (first_column interprov_row1_changed) \<and>
   map (\<lambda>(lbl, cells). (lbl, take 1 cells)) (quarter_columns interprov_example) =
     map (\<lambda>(lbl, cells). (lbl, take 1 cells)) (quarter_columns interprov_row1_changed) \<and>
   clean_interprov_migration plain_int plain_float interprov_example \<noteq>
     clean_interprov_migration plain_int plain_float interprov_row1_changed"
proof -
  have "clean_interprov_migration plain_int plain_float interprov_example \<noteq>
     clean_interprov_migration plain_int plain_float interprov_row1_changed"
    unfolding clean_interprov_example
    by (simp add: clean_interprov_migration_def interprov_long_row1_changed split: sum.splits)
  then show ?thesis
    by (simp add: interprov_example_def interprov_row1_changed_def)
qed

text \<open>The statement of C7 at the example frame and at a frame that differs from it in the
  data rows 0, 3 and 4.\<close>

theorem interprov_consumes_rows_1_2_witness:
  "clean_interprov_migration plain_int plain_float interprov_example =
     clean_interprov_migration plain_int plain_float interprov_other_rows_changed \<and>
   map (\<lambda>(flow, lbl, p, q). (flow, lbl, Some p, Inr q :: error + date))
     [(''In-migrants'', ''Q1 2024'', Some 10000, (2024, 3, 31)),
      (''Out-migrants'', ''Q1 2024'', Some 8000, (2024, 3, 31)),
      (''In-migrants'', ''Q2 2024'', Some 12000, (2024, 6, 30)),
      (''Out-migrants'', ''Q2 2024'', Some 9500, (2024, 6, 30))] =
   concat (map (\<lambda>(lbl, cells).
         [(first_column interprov_example ! 1, lbl,
           plain_float (strip (replace_char (CHR '','') [] (cells ! 1))), to_q_end plain_int lbl),
          (first_column interprov_example ! 2, lbl,
           plain_float (strip (replace_char (CHR '','') [] (cells ! 2))), to_q_end plain_int lbl)])
        (quarter_columns interprov_example))"
proof -
  have a: "iloc_1_3 (first_column interprov_example) = iloc_1_3 (first_column interprov_other_rows_changed) \<and>
    map (\<lambda>(lbl, cells). (lbl, iloc_1_3 cells)) (quarter_columns interprov_example) =
      map (\<lambda>(lbl, cells). (lbl, iloc_1_3 cells)) (quarter_columns interprov_other_rows_changed)"
    by (simp add: interprov_example_def interprov_other_rows_changed_def iloc_1_3_def)
  have b: "3 \<le> length (first_column interprov_example) \<and>
    (\<forall>(lbl, cells) \<in> set (quarter_columns interprov_example). 3 \<le> length cells)"
    by (simp add: interprov_example_def)
  note T = interprov_consumes_rows_1_2 [of plain_int plain_float interprov_example _ _
      interprov_other_rows_changed]
  show ?thesis
    using T a b clean_interprov_example by blast
qed

text \<open>
  Claim C10 as stated fails: the frame has the two labels \<^verbatim>\<open>Q1 2024\<close> and \<^verbatim>\<open>Q01 2024\<close>,
  which give the same quarter-end date, and a single data row, so \<^verbatim>\<open>df.iloc[1:3]\<close> is
  empty; the cleaner does not raise and returns empty tables.
\<close>

theorem interprov_same_quarter_no_row_counterexample:
  "to_q_end plain_int ''Q1 2024'' = Inr (2024, 3, 31) \<and>
   to_q_end plain_int ''Q01 2024'' = Inr (2024, 3, 31) \<and>
   clean_interprov_migration plain_int plain_float interprov_same_quarter_one_row =
     Inr ([], [(''quarter'', Timestamps []), (''interprov_in'', Floats []),
               (''interprov_out'', Floats []), (''interprov_net'', Floats [])])"
proof -
  have q1: "to_q_end plain_int ''Q1 2024'' = Inr (2024, 3, 31)"
    by (simp add: interprov_defs parse_defs days_in_month_def)
  have q2: "to_q_end plain_int ''Q01 2024'' = Inr (2024, 3, 31)"
    by (simp add: interprov_defs parse_defs days_in_month_def)
  have l: "interprov_long_table plain_int plain_float interprov_same_quarter_one_row = Inr []"
    by (simp add: interprov_same_quarter_one_row_def interprov_long_table_def melt_interprov_def
        iloc_1_3_def)
  have p: "pivot (map (\<lambda>(flow, lbl, p, q). (q, flow, p)) ([] :: interprov_long list)) = Inr ([], [])"
    by (simp add: pivot_def)
  have w: "interprov_wide ([], []) =
     Inr [(''quarter'', Timestamps []), (''interprov_in'', Floats []),
          (''interprov_out'', Floats []), (''interprov_net'', Floats [])]"
    by (simp add: wide_defs)
  have "clean_interprov_migration plain_int plain_float interprov_same_quarter_one_row =
     Inr ([], [(''quarter'', Timestamps []), (''interprov_in'', Floats []),
               (''interprov_out'', Floats []), (''interprov_net'', Floats [])])"
    by (simp only: clean_interprov_migration_def l sum.case p w)
  then show ?thesis using q1 q2 by blast
qed

text \<open>The statement of C10 at a frame whose labels \<^verbatim>\<open>Q1 2024\<close> and \<^verbatim>\<open>Q01 2024\<close> give the
  same quarter.\<close>

theorem interprov_duplicate_quarter_raises_witness:
  "clean_interprov_migration plain_int plain_float interprov_same_quarter = Inl ValueError"
proof -
  have "\<not> distinct (map (\<lambda>(flow, lbl, p, q). (q, flow))
         [(''In-migrants'', ''Q1 2024'', Some 10000 :: num, (2024, 3, 31) :: date),
          (''Out-migrants'', ''Q1 2024'', Some 8000, (2024, 3, 31)),
          (''In-migrants'', ''Q01 2024'', Some 12000, (2024, 3, 31)),
          (''Out-migrants'', ''Q01 2024'', Some 9500, (2024, 3, 31))])"
    by simp
  then show ?thesis
    using interprov_duplicate_quarter_raises [of interprov_same_quarter "[]" "''Q1 2024''"
        "[''persons'', ''10,000'', ''8,000'']" "[]" "''Q01 2024''" "[''persons'', ''12,000'', ''9,500'']" "[]"
        plain_int plain_float _ "[]"]
      interprov_long_same_quarter
    by blast
qed

end
